theory Spec2Isabelle
  imports Main "HOL-Library.AList" "HOL-Library.Multiset"
begin

section \<open>Strings of the module\<close>

text \<open>
  The module \<^verbatim>\<open>salt/modules/dracr.py\<close> (Salt 2015.8) builds command lines for the
  \<^verbatim>\<open>racadm\<close> tool and parses the text it prints. Its strings are byte strings: a
  \<^typ>\<open>string\<close> is a list of 8-bit characters, and the string methods the module calls
  are modelled as they act on bytes (white space is space, tab, line feed, vertical tab,
  form feed and carriage return; a line ends at a line feed, a carriage return, or a
  carriage return followed by a line feed).
\<close>

definition LF :: char where
  "LF = CHR 0x0A"

definition CR :: char where
  "CR = CHR 0x0D"

definition isspace :: "char \<Rightarrow> bool" where
  "isspace c \<longleftrightarrow> c \<in> {CHR '' '', CHR 0x09, CHR 0x0A, CHR 0x0B, CHR 0x0C, CHR 0x0D}"

text \<open>\<^verbatim>\<open>s.lstrip()\<close>, \<^verbatim>\<open>s.rstrip()\<close> and \<^verbatim>\<open>s.strip()\<close>.\<close>

definition lstrip :: "string \<Rightarrow> string" where
  "lstrip s = dropWhile isspace s"

definition rstrip :: "string \<Rightarrow> string" where
  "rstrip s = rev (dropWhile isspace (rev s))"

definition strip :: "string \<Rightarrow> string" where
  "strip s = rstrip (lstrip s)"

text \<open>\<^verbatim>\<open>s.startswith(p)\<close>.\<close>

definition startswith :: "string \<Rightarrow> string \<Rightarrow> bool" where
  "startswith s p \<longleftrightarrow> take (length p) s = p"

text \<open>
  \<^verbatim>\<open>s.split(sep)\<close> for a one-character separator: every occurrence of the separator
  cuts, so the result has one part more than there are separators and is never empty.
\<close>

fun split_on :: "char \<Rightarrow> string \<Rightarrow> string list" where
  "split_on sep [] = [[]]"
| "split_on sep (c # cs) =
     (if c = sep then [] # split_on sep cs
      else (case split_on sep cs of
              [] \<Rightarrow> [[c]]
            | p # ps \<Rightarrow> (c # p) # ps))"

text \<open>\<^verbatim>\<open>s.split()\<close>: the maximal runs of characters that are not white space.\<close>

function split_ws :: "string \<Rightarrow> string list" where
  "split_ws s =
     (case dropWhile isspace s of
        [] \<Rightarrow> []
      | c # cs \<Rightarrow> (c # takeWhile (\<lambda>x. \<not> isspace x) cs)
                  # split_ws (dropWhile (\<lambda>x. \<not> isspace x) cs))"
  by pat_completeness auto
termination
proof (relation "measure length", simp, goal_cases)
  case (1 s c cs)
  have "length (dropWhile (\<lambda>x. \<not> isspace x) cs) \<le> length cs"
    by (rule length_dropWhile_le)
  moreover have "length (c # cs) \<le> length s"
    using length_dropWhile_le [of isspace s] 1 by simp
  ultimately show ?case by simp
qed

declare split_ws.simps [simp del]

text \<open>\<^verbatim>\<open>s.splitlines()\<close>: no line for the end of the text after a final line break.\<close>

fun splitlines :: "string \<Rightarrow> string list" where
  "splitlines [] = []"
| "splitlines [c] = (if c = LF \<or> c = CR then [[]] else [[c]])"
| "splitlines (c # d # cs) =
     (if c = CR \<and> d = LF then [] # splitlines cs
      else if c = LF \<or> c = CR then [] # splitlines (d # cs)
      else (case splitlines (d # cs) of
              [] \<Rightarrow> [[c]]
            | l # ls \<Rightarrow> (c # l) # ls))"

text \<open>\<^verbatim>\<open>sep.join(parts)\<close>.\<close>

fun join :: "string \<Rightarrow> string list \<Rightarrow> string" where
  "join sep [] = []"
| "join sep [x] = x"
| "join sep (x # y # ys) = x @ sep @ join sep (y # ys)"

text \<open>\<^verbatim>\<open>re.split('  +', s)\<close>: cuts at every maximal run of two or more spaces.\<close>

function re_split_spaces :: "string \<Rightarrow> string list" where
  "re_split_spaces [] = [[]]"
| "re_split_spaces (c # cs) =
     (if c = CHR '' '' \<and> startswith cs '' ''
      then [] # re_split_spaces (dropWhile (\<lambda>x. x = CHR '' '') cs)
      else (case re_split_spaces cs of
              [] \<Rightarrow> [[c]]
            | p # ps \<Rightarrow> (c # p) # ps))"
  by pat_completeness auto
termination
  by (relation "measure length") (auto simp: le_imp_less_Suc length_dropWhile_le)

text \<open>\<^verbatim>\<open>s.lower()\<close> on bytes: only the letters A to Z change.\<close>

definition lower_char :: "char \<Rightarrow> char" where
  "lower_char c =
     (let n = (of_char c :: nat) in if 65 \<le> n \<and> n \<le> 90 then char_of (n + 32) else c)"

definition lower :: "string \<Rightarrow> string" where
  "lower s = map lower_char s"

text \<open>\<^verbatim>\<open>s.index(c)\<close>, where the character occurs.\<close>

definition index_of :: "char \<Rightarrow> string \<Rightarrow> nat" where
  "index_of c s = length (takeWhile (\<lambda>x. x \<noteq> c) s)"

text \<open>Decimal rendering of an integer, as \<^verbatim>\<open>'{0}'.format(i)\<close> gives it.\<close>

fun str_nat :: "nat \<Rightarrow> string" where
  "str_nat n =
     (if n < 10 then [''0123456789'' ! n]
      else str_nat (n div 10) @ [''0123456789'' ! (n mod 10)])"

declare str_nat.simps [simp del]

definition str_int :: "int \<Rightarrow> string" where
  "str_int i = (if i < 0 then CHR ''-'' # str_nat (nat (- i)) else str_nat (nat i))"

text \<open>
  Upper-case hexadecimal at least eight wide, padded with zeros after the sign, as
  \<^verbatim>\<open>'{0:08X}'.format(i)\<close> gives it.
\<close>

fun hex_nat :: "nat \<Rightarrow> string" where
  "hex_nat n =
     (if n < 16 then [''0123456789ABCDEF'' ! n]
      else hex_nat (n div 16) @ [''0123456789ABCDEF'' ! (n mod 16)])"

declare hex_nat.simps [simp del]

definition zfill :: "nat \<Rightarrow> string \<Rightarrow> string" where
  "zfill w s = replicate (w - length s) CHR ''0'' @ s"

definition format_08X :: "int \<Rightarrow> string" where
  "format_08X i =
     (if i < 0 then CHR ''-'' # zfill 7 (hex_nat (nat (- i))) else zfill 8 (hex_nat (nat i)))"

text \<open>
  \<^verbatim>\<open>int(s, 16)\<close> for the literals of the privilege table: an optional \<^verbatim>\<open>0x\<close> and
  at least one hexadecimal digit; anything else is the ValueError of Python, here None.
\<close>

definition hex_digit :: "char \<Rightarrow> int option" where
  "hex_digit c =
     (let n = (of_char c :: nat) in
      if 48 \<le> n \<and> n \<le> 57 then Some (int n - 48)
      else if 97 \<le> n \<and> n \<le> 102 then Some (int n - 87)
      else if 65 \<le> n \<and> n \<le> 70 then Some (int n - 55)
      else None)"

fun hex_digits :: "int \<Rightarrow> string \<Rightarrow> int option" where
  "hex_digits acc [] = Some acc"
| "hex_digits acc (c # cs) =
     (case hex_digit c of None \<Rightarrow> None | Some d \<Rightarrow> hex_digits (16 * acc + d) cs)"

definition int16 :: "string \<Rightarrow> int option" where
  "int16 s =
     (let body = (if startswith s ''0x'' \<or> startswith s ''0X'' then drop 2 s else s)
      in if body = [] then None else hex_digits 0 body)"

section \<open>Errors and dictionaries\<close>

text \<open>
  The exceptions the module can raise are values. A dictionary is an association list
  with one entry for each key, updated with \<^const>\<open>AList.update\<close> (a new key goes to the
  end, an old key keeps its place) and read with \<^const>\<open>map_of\<close>.
\<close>

datatype error = KeyError | ValueError | IndexError

type_synonym ('k, 'v) dict = "('k \<times> 'v) list"

text \<open>\<^verbatim>\<open>dict(pairs)\<close>: the pairs are stored from left to right.\<close>

definition dict_of :: "('k \<times> 'v) list \<Rightarrow> ('k, 'v) dict" where
  "dict_of ps = foldl (\<lambda>d (k, v). AList.update k v d) [] ps"

text \<open>\<^verbatim>\<open>xs.pop()\<close>: the last element, IndexError on the empty list.\<close>

definition pop :: "'a list \<Rightarrow> error + 'a" where
  "pop xs = (if xs = [] then Inl IndexError else Inr (last xs))"

section \<open>The command dispatcher\<close>

text \<open>
  \<^verbatim>\<open>__salt__['cmd.run_all']\<close> is the one door to the outside: it takes a command line
  and returns the exit code and the captured output. It is a parameter \<open>run\<close> acting on
  an outside world \<open>'w\<close>. The state threaded through the module holds that world, the
  command lines handed to \<open>run\<close> so far, and the warnings logged so far.
\<close>

record cmd_ret =
  retcode :: int
  stdout :: string
  stderr :: string

record 'w sys =
  world :: 'w
  issued :: "string list"
  warnings :: "string list"

type_synonym 'w runner = "string \<Rightarrow> 'w \<Rightarrow> cmd_ret \<times> 'w"

definition run_all :: "'w runner \<Rightarrow> string \<Rightarrow> 'w sys \<Rightarrow> cmd_ret \<times> 'w sys" where
  "run_all run c s =
     (case run c (world s) of
        (r, w) \<Rightarrow> (r, s\<lparr>world := w, issued := issued s @ [c]\<rparr>))"

definition log_warning :: "string \<Rightarrow> 'w sys \<Rightarrow> 'w sys" where
  "log_warning msg s = s\<lparr>warnings := warnings s @ [msg]\<rparr>"

text \<open>An optional string argument is true when it is given and not empty.\<close>

definition truthy :: "string option \<Rightarrow> bool" where
  "truthy x = (case x of None \<Rightarrow> False | Some v \<Rightarrow> v \<noteq> [])"

text \<open>\<^verbatim>\<open>'{0}'.format(x)\<close> for an optional string.\<close>

definition fmt :: "string option \<Rightarrow> string" where
  "fmt x = (case x of None \<Rightarrow> ''None'' | Some v \<Rightarrow> v)"

definition quote :: string where
  "quote = [CHR 0x27]"

definition exit_code_warning :: "int \<Rightarrow> string" where
  "exit_code_warning rc = ''racadm return an exit code '' @ quote @ str_int rc @ quote @ ''.''"

definition command_line ::
  "string option \<Rightarrow> string option \<Rightarrow> string option \<Rightarrow> string \<Rightarrow> string \<Rightarrow> string" where
  "command_line host admin_username admin_password command modswitch =
     (if \<not> truthy host then ''racadm '' @ command @ '' '' @ modswitch
      else ''racadm -r '' @ fmt host @ '' -u '' @ fmt admin_username @ '' -p ''
           @ fmt admin_password @ '' '' @ command @ '' '' @ modswitch)"

text \<open>
  \<^verbatim>\<open>__execute_cmd\<close>: the variant that returns whether the command succeeded. Its
  \<^verbatim>\<open>modswitch\<close> turns \<^verbatim>\<open>ALL_SERVER\<close> into \<^verbatim>\<open>-a server\<close>.
\<close>

definition modswitch_cmd :: "string option \<Rightarrow> string" where
  "modswitch_cmd module =
     (if truthy module
      then (if startswith (the module) ''ALL_''
            then ''-a '' @ lower (drop (index_of CHR ''_'' (the module) + 1) (the module))
            else ''-m '' @ the module)
      else [])"

definition execute_cmd ::
  "'w runner \<Rightarrow> string \<Rightarrow> string option \<Rightarrow> string option \<Rightarrow> string option \<Rightarrow> string option
     \<Rightarrow> 'w sys \<Rightarrow> bool \<times> 'w sys" where
  "execute_cmd run command host admin_username admin_password module s =
     (case run_all run
             (command_line host admin_username admin_password command (modswitch_cmd module))
             s of
        (cmd, s1) \<Rightarrow>
          if retcode cmd \<noteq> 0 then (False, log_warning (exit_code_warning (retcode cmd)) s1)
          else (True, s1))"

text \<open>
  \<^verbatim>\<open>__execute_ret\<close>: the variant that returns the whole result; on exit code zero the
  captured output is cleaned of the two alert lines and of blank lines.
\<close>

definition modswitch_ret :: "string option \<Rightarrow> string" where
  "modswitch_ret module =
     (if truthy module
      then (if the module = ''ALL'' then ''-a '' else ''-m '' @ the module)
      else [])"

definition fmtlines :: "string \<Rightarrow> string list" where
  "fmtlines out =
     filter (\<lambda>l. \<not> startswith l ''Security Alert'' \<and> \<not> startswith l ''Continuing execution''
                 \<and> \<not> length (strip l) = 0)
            (splitlines out)"

definition execute_ret ::
  "'w runner \<Rightarrow> string \<Rightarrow> string option \<Rightarrow> string option \<Rightarrow> string option \<Rightarrow> string option
     \<Rightarrow> 'w sys \<Rightarrow> cmd_ret \<times> 'w sys" where
  "execute_ret run command host admin_username admin_password module s =
     (case run_all run
             (command_line host admin_username admin_password command (modswitch_ret module))
             s of
        (cmd, s1) \<Rightarrow>
          if retcode cmd \<noteq> 0 then (cmd, log_warning (exit_code_warning (retcode cmd)) s1)
          else (cmd\<lparr>stdout := join [LF] (fmtlines (stdout cmd))\<rparr>, s1))"

section \<open>The section parser\<close>

text \<open>
  \<^verbatim>\<open>__parse_drac\<close>. The loop carries the dictionary \<open>drac\<close> of sections and the name
  \<open>section\<close> of the current one. \<^verbatim>\<open>dict([[...]])\<close> of a list that has not exactly two
  elements raises ValueError.
\<close>

type_synonym sections = "(string, (string, string) dict) dict"

fun parse_drac_loop :: "string list \<Rightarrow> sections \<Rightarrow> string \<Rightarrow> error + sections" where
  "parse_drac_loop [] drac section = Inr drac"
| "parse_drac_loop (i # rest) drac section =
     (if length (rstrip i) > 0 \<and> CHR ''='' \<in> set i then
        (case map_of drac section of
           Some d \<Rightarrow>
             (case map strip (split_on CHR ''='' i) of
                [k, v] \<Rightarrow>
                  parse_drac_loop rest (AList.update section (AList.update k v d) drac) section
              | _ \<Rightarrow> Inl ValueError)
         | None \<Rightarrow> parse_drac_loop rest drac section)
      else
        (let section' = butlast (strip i) in
         if map_of drac section' = None \<and> section' \<noteq> []
         then parse_drac_loop rest (AList.update section' [] drac) section'
         else parse_drac_loop rest drac section'))"

definition parse_drac :: "string \<Rightarrow> error + sections" where
  "parse_drac output = parse_drac_loop (splitlines output) [] []"

section \<open>Users\<close>

text \<open>
  A user of \<^verbatim>\<open>list_users\<close> is a dictionary with the integer entry \<^verbatim>\<open>'index'\<close> and the
  configuration entries, whose keys all begin with \<^verbatim>\<open>cfg\<close>.
\<close>

record user =
  index :: int
  attrs :: "(string, string) dict"

type_synonym users = "(string, user) dict"

text \<open>
  The inner loop of \<^verbatim>\<open>list_users\<close> over the lines printed for one index. Unpacking
  \<^verbatim>\<open>(key, val) = user.split('=')\<close> raises ValueError unless there are exactly two
  parts; \<^verbatim>\<open>break\<close> leaves the loop with what has been collected.
\<close>

fun user_lines :: "int \<Rightarrow> string list \<Rightarrow> users \<times> string \<Rightarrow> error + (users \<times> string)" where
  "user_lines idx [] (users, uname) = Inr (users, uname)"
| "user_lines idx (l # ls) (users, uname) =
     (if \<not> startswith l ''cfg'' then user_lines idx ls (users, uname)
      else
        (case split_on CHR ''='' l of
           [key, val] \<Rightarrow>
             if startswith key ''cfgUserAdminUserName'' then
               (if val \<noteq> []
                then user_lines idx ls
                       (AList.update (strip val) \<lparr>index = idx, attrs = []\<rparr> users, strip val)
                else Inr (users, strip val))
             else if length uname > 0 then
               (case map_of users uname of
                  None \<Rightarrow> Inl KeyError
                | Some u \<Rightarrow>
                    user_lines idx ls
                      (AList.update uname (u\<lparr>attrs := AList.update key val (attrs u)\<rparr>) users,
                       uname))
             else user_lines idx ls (users, uname)
         | _ \<Rightarrow> Inl ValueError))"

fun list_users_loop ::
  "'w runner \<Rightarrow> int list \<Rightarrow> string option \<Rightarrow> string option \<Rightarrow> string option
     \<Rightarrow> users \<times> string \<Rightarrow> 'w sys \<Rightarrow> (error + (users \<times> string)) \<times> 'w sys" where
  "list_users_loop run [] host admin_username admin_password acc s = (Inr acc, s)"
| "list_users_loop run (idx # rest) host admin_username admin_password acc s =
     (case execute_ret run (''getconfig -g cfgUserAdmin -i '' @ str_int idx)
             host admin_username admin_password None s of
        (cmd, s1) \<Rightarrow>
          (let s2 = (if retcode cmd \<noteq> 0
                     then log_warning (exit_code_warning (retcode cmd)) s1 else s1)
           in case user_lines idx (splitlines (stdout cmd)) acc of
                Inl e \<Rightarrow> (Inl e, s2)
              | Inr acc' \<Rightarrow> list_users_loop run rest host admin_username admin_password acc' s2))"

definition list_users ::
  "'w runner \<Rightarrow> string option \<Rightarrow> string option \<Rightarrow> string option \<Rightarrow> string option
     \<Rightarrow> 'w sys \<Rightarrow> (error + users) \<times> 'w sys" where
  "list_users run host admin_username admin_password module s =
     (case list_users_loop run [1..16] host admin_username admin_password ([], []) s of
        (Inl e, s') \<Rightarrow> (Inl e, s')
      | (Inr (users, uname), s') \<Rightarrow> (Inr users, s'))"

text \<open>\<^verbatim>\<open>user[username]['index']\<close>: a missing key raises KeyError.\<close>

definition user_index :: "users \<Rightarrow> string \<Rightarrow> error + int" where
  "user_index user username =
     (case map_of user username of None \<Rightarrow> Inl KeyError | Some u \<Rightarrow> Inr (index u))"

definition does_not_exist :: "string \<Rightarrow> string" where
  "does_not_exist username = quote @ username @ quote @ '' does not exist''"

definition delete_user ::
  "'w runner \<Rightarrow> string \<Rightarrow> int option \<Rightarrow> string option \<Rightarrow> string option \<Rightarrow> string option
     \<Rightarrow> 'w sys \<Rightarrow> (error + bool) \<times> 'w sys" where
  "delete_user run username uid host admin_username admin_password s =
     (case (case uid of
              Some i \<Rightarrow> (Inr i, s)
            | None \<Rightarrow>
                (case list_users run None None None None s of
                   (Inl e, s1) \<Rightarrow> (Inl e, s1)
                 | (Inr user, s1) \<Rightarrow> (user_index user username, s1))) of
        (Inl e, s1) \<Rightarrow> (Inl e, s1)
      | (Inr uid', s1) \<Rightarrow>
          if uid' \<noteq> 0 then
            (case execute_cmd run
                    (''config -g cfgUserAdmin -o cfgUserAdminUserName -i '' @ str_int uid'
                     @ '' '' @ [CHR 0x22, CHR 0x22])
                    host admin_username admin_password None s1 of
               (ok, s2) \<Rightarrow> (Inr ok, s2))
          else (Inr False, log_warning (does_not_exist username) s1))"

definition change_password ::
  "'w runner \<Rightarrow> string \<Rightarrow> string \<Rightarrow> int option \<Rightarrow> string option \<Rightarrow> string option
     \<Rightarrow> string option \<Rightarrow> string option \<Rightarrow> 'w sys \<Rightarrow> (error + bool) \<times> 'w sys" where
  "change_password run username password uid host admin_username admin_password module s =
     (case (case uid of
              Some i \<Rightarrow> (Inr i, s)
            | None \<Rightarrow>
                (case list_users run host admin_username admin_password module s of
                   (Inl e, s1) \<Rightarrow> (Inl e, s1)
                 | (Inr user, s1) \<Rightarrow> (user_index user username, s1))) of
        (Inl e, s1) \<Rightarrow> (Inl e, s1)
      | (Inr uid', s1) \<Rightarrow>
          if uid' \<noteq> 0 then
            (case execute_cmd run
                    (''config -g cfgUserAdmin -o cfgUserAdminPassword -i '' @ str_int uid'
                     @ '' '' @ password)
                    host admin_username admin_password module s1 of
               (ok, s2) \<Rightarrow> (Inr ok, s2))
          else (Inr False, log_warning (does_not_exist username) s1))"

section \<open>Permissions\<close>

definition privileges :: "(string, string) dict" where
  "privileges =
     [(''login'', ''0x0000001''),
      (''drac'', ''0x0000002''),
      (''user_management'', ''0x0000004''),
      (''clear_logs'', ''0x0000008''),
      (''server_control_commands'', ''0x0000010''),
      (''console_redirection'', ''0x0000020''),
      (''virtual_media'', ''0x0000040''),
      (''test_alerts'', ''0x0000080''),
      (''debug_commands'', ''0x0000100'')]"

text \<open>The loop of \<^verbatim>\<open>set_permissions\<close> that generates the privilege bit mask.\<close>

fun permission_loop :: "string list \<Rightarrow> int \<Rightarrow> error + int" where
  "permission_loop [] permission = Inr permission"
| "permission_loop (i # rest) permission =
     (case map_of privileges (strip i) of
        None \<Rightarrow> permission_loop rest permission
      | Some h \<Rightarrow>
          (case int16 h of
             None \<Rightarrow> Inl ValueError
           | Some v \<Rightarrow> permission_loop rest (permission + v)))"

definition permission_mask :: "string \<Rightarrow> error + int" where
  "permission_mask permissions = permission_loop (split_on CHR '','' permissions) 0"

definition set_permissions ::
  "'w runner \<Rightarrow> string \<Rightarrow> string \<Rightarrow> int option \<Rightarrow> string option \<Rightarrow> string option
     \<Rightarrow> string option \<Rightarrow> 'w sys \<Rightarrow> (error + bool) \<times> 'w sys" where
  "set_permissions run username permissions uid host admin_username admin_password s =
     (case (case uid of
              Some i \<Rightarrow> (Inr i, s)
            | None \<Rightarrow>
                (case list_users run None None None None s of
                   (Inl e, s1) \<Rightarrow> (Inl e, s1)
                 | (Inr user, s1) \<Rightarrow> (user_index user username, s1))) of
        (Inl e, s1) \<Rightarrow> (Inl e, s1)
      | (Inr uid', s1) \<Rightarrow>
          (case permission_mask permissions of
             Inl e \<Rightarrow> (Inl e, s1)
           | Inr permission \<Rightarrow>
               (case execute_cmd run
                       (''config -g cfgUserAdmin -o cfgUserAdminPrivilege -i '' @ str_int uid'
                        @ '' 0x'' @ format_08X permission)
                       host admin_username admin_password None s1 of
                  (ok, s2) \<Rightarrow> (Inr ok, s2))))"

section \<open>Creating a user\<close>

text \<open>
  The indices in use, \<^verbatim>\<open>_uids\<close>, and the index of the new user:
  \<^verbatim>\<open>sorted(list(set(range(2, 12)) - _uids), reverse=True).pop()\<close>.
\<close>

definition uids_of :: "users \<Rightarrow> int set" where
  "uids_of users = (\<lambda>idx. index (the (map_of users idx))) ` set (map fst users)"

definition new_uid :: "int set \<Rightarrow> error + int" where
  "new_uid uids = pop (rev (sorted_list_of_set ({2..11} - uids)))"

text \<open>\<^verbatim>\<open>delete_user(username, uid)\<close> followed by \<^verbatim>\<open>return False\<close>.\<close>

definition delete_and_fail ::
  "'w runner \<Rightarrow> string \<Rightarrow> int \<Rightarrow> 'w sys \<Rightarrow> (error + bool) \<times> 'w sys" where
  "delete_and_fail run username uid s =
     (case delete_user run username (Some uid) None None None s of
        (Inl e, s') \<Rightarrow> (Inl e, s')
      | (Inr ok, s') \<Rightarrow> (Inr False, s'))"

definition already_exists :: "string \<Rightarrow> string" where
  "already_exists username = quote @ username @ quote @ '' already exists''"

definition create_user ::
  "'w runner \<Rightarrow> string \<Rightarrow> string \<Rightarrow> string \<Rightarrow> users option \<Rightarrow> string option
     \<Rightarrow> string option \<Rightarrow> string option \<Rightarrow> 'w sys \<Rightarrow> (error + bool) \<times> 'w sys" where
  "create_user run username password permissions users host admin_username admin_password s =
     (case (case users of
              Some us \<Rightarrow> (Inr us, s)
            | None \<Rightarrow> list_users run None None None None s) of
        (Inl e, s0) \<Rightarrow> (Inl e, s0)
      | (Inr us, s0) \<Rightarrow>
          if map_of us username \<noteq> None
          then (Inr False, log_warning (already_exists username) s0)
          else
            (case new_uid (uids_of us) of
               Inl e \<Rightarrow> (Inl e, s0)
             | Inr uid \<Rightarrow>
                 (case execute_cmd run
                         (''config -g cfgUserAdmin -o cfgUserAdminUserName -i '' @ str_int uid
                          @ '' '' @ username)
                         host admin_username admin_password None s0 of
                    (ok1, s1) \<Rightarrow>
                      if \<not> ok1 then delete_and_fail run username uid s1
                      else
                        (case set_permissions run username permissions (Some uid)
                                None None None s1 of
                           (Inl e, s2) \<Rightarrow> (Inl e, s2)
                         | (Inr ok2, s2) \<Rightarrow>
                             if \<not> ok2
                             then delete_and_fail run username uid
                                    (log_warning ''unable to set user permissions'' s2)
                             else
                               (case change_password run username password (Some uid)
                                       None None None None s2 of
                                  (Inl e, s3) \<Rightarrow> (Inl e, s3)
                                | (Inr ok3, s3) \<Rightarrow>
                                    if \<not> ok3
                                    then delete_and_fail run username uid
                                           (log_warning ''unable to set user password'' s3)
                                    else
                                      (case execute_cmd run
                                              (''config -g cfgUserAdmin -o cfgUserAdminEnable -i ''
                                               @ str_int uid @ '' 1'')
                                              None None None None s3 of
                                         (ok4, s4) \<Rightarrow>
                                           if \<not> ok4 then delete_and_fail run username uid s4
                                           else (Inr True, s4)))))))"

section \<open>Operations built on the dispatcher\<close>

definition set_snmp ::
  "'w runner \<Rightarrow> string \<Rightarrow> string option \<Rightarrow> string option \<Rightarrow> string option
     \<Rightarrow> 'w sys \<Rightarrow> bool \<times> 'w sys" where
  "set_snmp run community host admin_username admin_password s =
     execute_cmd run (''config -g cfgOobSnmp -o cfgOobSnmpAgentCommunity '' @ community)
       host admin_username admin_password None s"

definition server_reboot ::
  "'w runner \<Rightarrow> string option \<Rightarrow> string option \<Rightarrow> string option \<Rightarrow> string option
     \<Rightarrow> 'w sys \<Rightarrow> bool \<times> 'w sys" where
  "server_reboot run host admin_username admin_password module s =
     execute_cmd run ''serveraction powercycle'' host admin_username admin_password module s"

definition set_chassis_name ::
  "'w runner \<Rightarrow> string \<Rightarrow> string option \<Rightarrow> string option \<Rightarrow> string option
     \<Rightarrow> 'w sys \<Rightarrow> bool \<times> 'w sys" where
  "set_chassis_name run name host admin_username admin_password s =
     execute_cmd run (''setsysinfo -c chassisname '' @ name)
       host admin_username admin_password None s"

text \<open>
  \<^verbatim>\<open>syslog\<close>. The test \<^verbatim>\<open>enable and __execute_cmd(...)\<close> runs the enable command
  only when \<^verbatim>\<open>enable\<close> is true; when the test fails, for either reason, the function
  goes on to the command that disables remote logging and returns its result.
\<close>

definition syslog ::
  "'w runner \<Rightarrow> string \<Rightarrow> bool \<Rightarrow> string option \<Rightarrow> string option \<Rightarrow> string option
     \<Rightarrow> string option \<Rightarrow> 'w sys \<Rightarrow> bool \<times> 'w sys" where
  "syslog run server enable host admin_username admin_password module s =
     (case (if enable
            then execute_cmd run ''config -g cfgRemoteHosts -o cfgRhostsSyslogEnable 1''
                   host admin_username admin_password None s
            else (False, s)) of
        (test, s1) \<Rightarrow>
          if test
          then execute_cmd run (''config -g cfgRemoteHosts -o cfgRhostsSyslogServer1 '' @ server)
                 host admin_username admin_password module s1
          else execute_cmd run ''config -g cfgRemoteHosts -o cfgRhostsSyslogEnable 0''
                 host admin_username admin_password module s1)"

text \<open>
  \<^verbatim>\<open>server_pxe\<close> returns either a boolean or the function \<^verbatim>\<open>server_reboot\<close> itself;
  the function is a value of the result type.
\<close>

datatype 'w pxe_ret =
  Returned_bool bool
| Returned_function
    "string option \<Rightarrow> string option \<Rightarrow> string option \<Rightarrow> string option \<Rightarrow> 'w sys \<Rightarrow> bool \<times> 'w sys"

definition server_pxe ::
  "'w runner \<Rightarrow> string option \<Rightarrow> string option \<Rightarrow> string option
     \<Rightarrow> 'w sys \<Rightarrow> 'w pxe_ret \<times> 'w sys" where
  "server_pxe run host admin_username admin_password s =
     (case execute_cmd run ''config -g cfgServerInfo -o cfgServerFirstBootDevice PXE''
             host admin_username admin_password None s of
        (ok1, s1) \<Rightarrow>
          if ok1 then
            (case execute_cmd run ''config -g cfgServerInfo -o cfgServerBootOnce 1''
                    host admin_username admin_password None s1 of
               (ok2, s2) \<Rightarrow>
                 if ok2 then (Returned_function (server_reboot run), s2)
                 else (Returned_bool False, log_warning ''failed to set boot order'' s2))
          else (Returned_bool False, log_warning ''failed to to configure PXE boot'' s1))"

section \<open>Slot names and inventory\<close>

text \<open>
  A query returns the raw result when the exit code is not zero and the parsed
  dictionary otherwise.
\<close>

datatype 'a reply = Raw cmd_ret | Parsed 'a

record slot =
  slot :: string
  slotname :: string
  hostname :: string

text \<open>The loop of \<^verbatim>\<open>list_slotnames\<close>; \<^verbatim>\<open>fields[0]\<close> of no fields raises IndexError.\<close>

fun slot_lines :: "string list \<Rightarrow> bool \<Rightarrow> (string, slot) dict \<Rightarrow> error + (string, slot) dict" where
  "slot_lines [] stripheader slots = Inr slots"
| "slot_lines (l # ls) stripheader slots =
     (if startswith l ''<'' then slot_lines ls False slots
      else if stripheader then slot_lines ls stripheader slots
      else
        (let fields = split_ws l in
         case fields of
           [] \<Rightarrow> Inl IndexError
         | f0 # fs \<Rightarrow>
             slot_lines ls stripheader
               (AList.update f0
                  \<lparr>slot = f0,
                   slotname = (if length fields > 1 then fields ! 1 else []),
                   hostname = (if length fields > 2 then fields ! 2 else [])\<rparr>
                  slots)))"

definition list_slotnames ::
  "'w runner \<Rightarrow> string option \<Rightarrow> string option \<Rightarrow> string option
     \<Rightarrow> 'w sys \<Rightarrow> (error + (string, slot) dict reply) \<times> 'w sys" where
  "list_slotnames run host admin_username admin_password s =
     (case execute_ret run ''getslotname'' host admin_username admin_password None s of
        (slotraw, s1) \<Rightarrow>
          if retcode slotraw \<noteq> 0 then (Inr (Raw slotraw), s1)
          else
            (case slot_lines (splitlines (stdout slotraw)) True [] of
               Inl e \<Rightarrow> (Inl e, s1)
             | Inr slots \<Rightarrow> (Inr (Parsed slots), s1)))"

text \<open>
  \<^verbatim>\<open>inventory\<close>. The result has the four entries \<^verbatim>\<open>server\<close>, \<^verbatim>\<open>switch\<close>,
  \<^verbatim>\<open>cmc\<close> and \<^verbatim>\<open>chassis\<close>; the loop carries the four flags. The imported \<^verbatim>\<open>map\<close>
  stops at the shorter of its two sequences, so a record is
  \<^verbatim>\<open>dict(zip(fields, line))\<close>.
\<close>

type_synonym records = "(string, (string, string) dict) dict"

record inv =
  server :: records
  switch :: records
  cmc :: records
  chassis :: records

definition fields_server :: "string list" where
  "fields_server = [''name'', ''idrac_version'', ''blade_type'', ''gen'', ''updateable'']"

definition fields_switch :: "string list" where
  "fields_switch = [''name'', ''model_name'', ''hw_version'', ''fw_version'']"

definition fields_cmc :: "string list" where
  "fields_cmc = [''name'', ''cmc_version'', ''updateable'']"

definition fields_chassis :: "string list" where
  "fields_chassis = [''name'', ''fw_version'', ''fqdd'']"

text \<open>The four conditional stores made for one line of an active block.\<close>

definition store_line :: "bool \<times> bool \<times> bool \<times> bool \<Rightarrow> string list \<Rightarrow> inv \<Rightarrow> inv" where
  "store_line flags line ret =
     (case flags of
        (in_server, in_switch, in_cmc, in_chassis) \<Rightarrow>
          (let ret1 = (if in_server
                       then ret\<lparr>server :=
                              AList.update (hd line) (dict_of (zip fields_server line))
                                (server ret)\<rparr>
                       else ret);
               ret2 = (if in_switch
                       then ret1\<lparr>switch :=
                              AList.update (hd line) (dict_of (zip fields_switch line))
                                (switch ret1)\<rparr>
                       else ret1);
               ret3 = (if in_cmc
                       then ret2\<lparr>cmc :=
                              AList.update (hd line) (dict_of (zip fields_cmc line))
                                (cmc ret2)\<rparr>
                       else ret2)
           in (if in_chassis
               then ret3\<lparr>chassis :=
                      AList.update (hd line) (dict_of (zip fields_chassis line))
                        (chassis ret3)\<rparr>
               else ret3)))"

text \<open>
  The loop. \<^verbatim>\<open>line[0]\<close> of an empty list raises IndexError, so \<^const>\<open>store_line\<close> is
  reached with a list that has a first element only.
\<close>

fun inventory_lines ::
  "string list \<Rightarrow> bool \<times> bool \<times> bool \<times> bool \<Rightarrow> inv \<Rightarrow> error + inv" where
  "inventory_lines [] flags ret = Inr ret"
| "inventory_lines (l # ls) flags ret =
     (if startswith l ''<Server>'' then inventory_lines ls (True, False, False, False) ret
      else if startswith l ''<Switch>'' then inventory_lines ls (False, True, False, False) ret
      else if startswith l ''<CMC>'' then inventory_lines ls (False, False, True, False) ret
      else if startswith l ''<Chassis Infrastructure>''
      then inventory_lines ls (False, False, False, True) ret
      else if length l < 1 then inventory_lines ls flags ret
      else if re_split_spaces (strip l) = [] \<and> flags \<noteq> (False, False, False, False)
      then Inl IndexError
      else inventory_lines ls flags (store_line flags (re_split_spaces (strip l)) ret))"

definition inventory ::
  "'w runner \<Rightarrow> string option \<Rightarrow> string option \<Rightarrow> string option
     \<Rightarrow> 'w sys \<Rightarrow> (error + inv reply) \<times> 'w sys" where
  "inventory run host admin_username admin_password s =
     (case execute_ret run ''getversion'' host admin_username admin_password None s of
        (rawinv, s1) \<Rightarrow>
          if retcode rawinv \<noteq> 0 then (Inr (Raw rawinv), s1)
          else
            (case inventory_lines (splitlines (stdout rawinv)) (False, False, False, False)
                    \<lparr>server = [], switch = [], cmc = [], chassis = []\<rparr> of
               Inl e \<Rightarrow> (Inl e, s1)
             | Inr ret \<Rightarrow> (Inr (Parsed ret), s1)))"

section \<open>Reference definitions\<close>

text \<open>
  A canned outside world for running the model on concrete inputs: the world is the list
  of results still to be handed out, one for each command; when the list is used up every
  command succeeds and prints nothing.
\<close>

definition exits :: "int \<Rightarrow> cmd_ret" where
  "exits rc = \<lparr>retcode = rc, stdout = [], stderr = []\<rparr>"

definition prints :: "string \<Rightarrow> cmd_ret" where
  "prints out = \<lparr>retcode = 0, stdout = out, stderr = []\<rparr>"

definition scripted :: "cmd_ret list runner" where
  "scripted c w = (case w of [] \<Rightarrow> (exits 0, []) | r # rs \<Rightarrow> (r, rs))"

definition fresh :: "'w \<Rightarrow> 'w sys" where
  "fresh w = \<lparr>world = w, issued = [], warnings = []\<rparr>"

text \<open>
  The exit codes met when the command lines \<open>cs\<close> are run one after the other from the
  world \<open>w\<close>.
\<close>

fun outcomes :: "'w runner \<Rightarrow> string list \<Rightarrow> 'w \<Rightarrow> int list" where
  "outcomes run [] w = []"
| "outcomes run (c # cs) w = retcode (fst (run c w)) # outcomes run cs (snd (run c w))"

text \<open>
  The value a flag of the permission string contributes: the table entry of its trimmed
  name, nothing for a name that is not in the table.
\<close>

definition flag_value :: "string \<Rightarrow> int" where
  "flag_value i = (case map_of privileges (strip i) of None \<Rightarrow> 0 | Some h \<Rightarrow> the (int16 h))"

definition mask_value :: "string \<Rightarrow> int" where
  "mask_value permissions = sum_list (map flag_value (split_on CHR '','' permissions))"

text \<open>
  The user's creation and deletion as commands for the controller the user is created
  on: the four steps of \<^verbatim>\<open>create_user\<close> for the index \<open>uid\<close> (name, permissions,
  password, enable), and the command that deletes the user at \<open>uid\<close>.
\<close>

definition create_user_commands ::
  "string option \<Rightarrow> string option \<Rightarrow> string option \<Rightarrow> string \<Rightarrow> string \<Rightarrow> string \<Rightarrow> int
     \<Rightarrow> string list" where
  "create_user_commands host au ap username password permissions uid =
     [command_line host au ap
        (''config -g cfgUserAdmin -o cfgUserAdminUserName -i '' @ str_int uid @ '' '' @ username)
        [],
      command_line host au ap
        (''config -g cfgUserAdmin -o cfgUserAdminPrivilege -i '' @ str_int uid @ '' 0x''
         @ format_08X (mask_value permissions)) [],
      command_line host au ap
        (''config -g cfgUserAdmin -o cfgUserAdminPassword -i '' @ str_int uid @ '' '' @ password)
        [],
      command_line host au ap
        (''config -g cfgUserAdmin -o cfgUserAdminEnable -i '' @ str_int uid @ '' 1'') []]"

definition delete_command ::
  "string option \<Rightarrow> string option \<Rightarrow> string option \<Rightarrow> int \<Rightarrow> string" where
  "delete_command host au ap uid =
     command_line host au ap
       (''config -g cfgUserAdmin -o cfgUserAdminUserName -i '' @ str_int uid @ '' ''
        @ [CHR 0x22, CHR 0x22]) []"

text \<open>
  The line-by-line reconstruction the specification gives for the section parser. A blank
  line is passed over. A line with \<^verbatim>\<open>=\<close> adds the trimmed text before and after the
  \<^verbatim>\<open>=\<close> as a pair to the current section, and is dropped when no section has been
  declared. Any other line starts the section named by the trimmed line without its
  trailing colon.
\<close>

definition blank :: "string \<Rightarrow> bool" where
  "blank l \<longleftrightarrow> strip l = []"

definition section_name :: "string \<Rightarrow> string" where
  "section_name l =
     (let t = strip l in if t \<noteq> [] \<and> last t = CHR '':'' then butlast t else t)"

definition declare_section :: "string \<Rightarrow> sections \<Rightarrow> sections" where
  "declare_section name m =
     (case map_of m name of None \<Rightarrow> AList.update name [] m | Some d \<Rightarrow> m)"

definition add_pair :: "string \<Rightarrow> string \<Rightarrow> string \<Rightarrow> sections \<Rightarrow> sections" where
  "add_pair name k v m =
     AList.update name (AList.update k v (case map_of m name of None \<Rightarrow> [] | Some d \<Rightarrow> d)) m"

fun spec_sections :: "string list \<Rightarrow> string option \<Rightarrow> sections \<Rightarrow> sections" where
  "spec_sections [] cur m = m"
| "spec_sections (l # ls) cur m =
     (if blank l then spec_sections ls cur m
      else if CHR ''='' \<in> set l then
        (case cur of
           None \<Rightarrow> spec_sections ls cur m
         | Some name \<Rightarrow>
             spec_sections ls cur
               (add_pair name (strip (takeWhile (\<lambda>c. c \<noteq> CHR ''='') l))
                  (strip (drop 1 (dropWhile (\<lambda>c. c \<noteq> CHR ''='') l))) m))
      else spec_sections ls (Some (section_name l)) (declare_section (section_name l) m))"

text \<open>
  The same reconstruction with one rule more: a blank line ends the current section, so
  the pairs after it are dropped until the next header.
\<close>

fun closing_sections :: "string list \<Rightarrow> string option \<Rightarrow> sections \<Rightarrow> sections" where
  "closing_sections [] cur m = m"
| "closing_sections (l # ls) cur m =
     (if blank l then closing_sections ls None m
      else if CHR ''='' \<in> set l then
        (case cur of
           None \<Rightarrow> closing_sections ls cur m
         | Some name \<Rightarrow>
             closing_sections ls cur
               (add_pair name (strip (takeWhile (\<lambda>c. c \<noteq> CHR ''='') l))
                  (strip (drop 1 (dropWhile (\<lambda>c. c \<noteq> CHR ''='') l))) m))
      else closing_sections ls (Some (section_name l)) (declare_section (section_name l) m))"

text \<open>
  Well-formed sectioned input: every line is blank, or a pair with exactly one \<^verbatim>\<open>=\<close>,
  or a header that ends in a colon after a name that is not empty.
\<close>

definition wf_line :: "string \<Rightarrow> bool" where
  "wf_line l \<longleftrightarrow>
     blank l
     \<or> (CHR ''='' \<in> set l \<and> count_list l CHR ''='' = 1)
     \<or> (CHR ''='' \<notin> set l \<and> length (strip l) > 1 \<and> last (strip l) = CHR '':'')"

definition well_formed :: "string \<Rightarrow> bool" where
  "well_formed output = list_all wf_line (splitlines output)"

text \<open>
  Every line with \<^verbatim>\<open>=\<close> that lies inside a declared section has exactly one \<^verbatim>\<open>=\<close>.
  The section a line lies in is named by the last line without \<^verbatim>\<open>=\<close> before it, less
  its last character; it is declared when that name is not empty.
\<close>

fun single_pairs :: "string \<Rightarrow> string list \<Rightarrow> bool" where
  "single_pairs sec [] = True"
| "single_pairs sec (l # ls) =
     (if CHR ''='' \<in> set l
      then (sec = [] \<or> count_list l CHR ''='' = 1) \<and> single_pairs sec ls
      else single_pairs (butlast (strip l)) ls)"

text \<open>
  The slot listing in the words of the specification. Token \<open>n\<close> of a line, or the empty
  string when the line has fewer tokens; the entry a line gives: keyed by the first token,
  with the second token as slot name and the third as host name; the lines after the
  first line that starts with \<^verbatim>\<open><\<close>. \<open>claimed_slots\<close> makes an entry of every line
  after the header; \<open>body_slots\<close> makes an entry of those that do not start with \<^verbatim>\<open><\<close>.
\<close>

definition token :: "string list \<Rightarrow> nat \<Rightarrow> string" where
  "token ts n = (if n < length ts then ts ! n else [])"

definition slot_entry :: "string \<Rightarrow> string \<times> slot" where
  "slot_entry l =
     (let ts = split_ws l
      in (token ts 0, \<lparr>slot = token ts 0, slotname = token ts 1, hostname = token ts 2\<rparr>))"

definition after_header :: "string list \<Rightarrow> string list" where
  "after_header ls = drop 1 (dropWhile (\<lambda>l. \<not> startswith l ''<'') ls)"

definition claimed_slots :: "string list \<Rightarrow> (string, slot) dict" where
  "claimed_slots ls = dict_of (map slot_entry (after_header ls))"

definition body_slots :: "string list \<Rightarrow> (string, slot) dict" where
  "body_slots ls =
     dict_of (map slot_entry (filter (\<lambda>l. \<not> startswith l ''<'') (after_header ls)))"

text \<open>
  The blocks of the inventory listing: the tag that introduces a block, the field names
  declared for it, its entry in the result, and the block that is active after the lines
  \<open>pre\<close>, which is the block of the last tag line among them.
\<close>

datatype block = Server | Switch | CMC | Chassis

definition tag_of :: "string \<Rightarrow> block option" where
  "tag_of l =
     (if startswith l ''<Server>'' then Some Server
      else if startswith l ''<Switch>'' then Some Switch
      else if startswith l ''<CMC>'' then Some CMC
      else if startswith l ''<Chassis Infrastructure>'' then Some Chassis
      else None)"

fun fields_of :: "block \<Rightarrow> string list" where
  "fields_of Server = fields_server"
| "fields_of Switch = fields_switch"
| "fields_of CMC = fields_cmc"
| "fields_of Chassis = fields_chassis"

fun records_of :: "block \<Rightarrow> inv \<Rightarrow> records" where
  "records_of Server ret = server ret"
| "records_of Switch ret = switch ret"
| "records_of CMC ret = cmc ret"
| "records_of Chassis ret = chassis ret"

fun active :: "block option \<Rightarrow> string list \<Rightarrow> block option" where
  "active cur [] = cur"
| "active cur (l # ls) = active (case tag_of l of None \<Rightarrow> cur | Some b \<Rightarrow> Some b) ls"

fun flags_of :: "block option \<Rightarrow> bool \<times> bool \<times> bool \<times> bool" where
  "flags_of None = (False, False, False, False)"
| "flags_of (Some Server) = (True, False, False, False)"
| "flags_of (Some Switch) = (False, True, False, False)"
| "flags_of (Some CMC) = (False, False, True, False)"
| "flags_of (Some Chassis) = (False, False, False, True)"

section \<open>Properties of the dispatcher\<close>

lemma execute_cmd_eq:
  "execute_cmd run command host au ap module s =
     (let c = command_line host au ap command (modswitch_cmd module);
          r = fst (run c (world s))
      in (retcode r = 0,
          s\<lparr>world := snd (run c (world s)), issued := issued s @ [c],
            warnings := warnings s
              @ (if retcode r = 0 then [] else [exit_code_warning (retcode r)])\<rparr>))"
  by (cases s) (simp add: execute_cmd_def run_all_def log_warning_def Let_def split: prod.splits)

lemma execute_ret_eq:
  "execute_ret run command host au ap module s =
     (let c = command_line host au ap command (modswitch_ret module);
          r = fst (run c (world s))
      in (if retcode r = 0 then r\<lparr>stdout := join [LF] (fmtlines (stdout r))\<rparr> else r,
          s\<lparr>world := snd (run c (world s)), issued := issued s @ [c],
            warnings := warnings s
              @ (if retcode r = 0 then [] else [exit_code_warning (retcode r)])\<rparr>))"
  by (cases s) (simp add: execute_ret_def run_all_def log_warning_def Let_def split: prod.splits)

lemma modswitch_cmd_None [simp]: "modswitch_cmd None = []"
  by (simp add: modswitch_cmd_def truthy_def)

lemma modswitch_ret_None [simp]: "modswitch_ret None = []"
  by (simp add: modswitch_ret_def truthy_def)

text \<open>
  The dispatcher \<^verbatim>\<open>__execute_cmd\<close> is a total function into the booleans: it hands
  exactly one command line to the runner and returns True exactly when the exit code of
  that command is zero, so False on every other exit code. The operations
  \<^verbatim>\<open>server_reboot\<close>, \<^verbatim>\<open>set_snmp\<close> and \<^verbatim>\<open>set_chassis_name\<close> return what the
  dispatcher returns for their command, hence False on a nonzero exit code.
\<close>

lemma execute_cmd_true_iff_exit_zero:
  "(\<exists>c. issued (snd (execute_cmd run command host au ap module s)) = issued s @ [c]
        \<and> fst (execute_cmd run command host au ap module s)
          = (retcode (fst (run c (world s))) = 0))
   \<and> fst (server_reboot run host au ap module s)
     = (retcode (fst (run (command_line host au ap ''serveraction powercycle''
                             (modswitch_cmd module)) (world s))) = 0)
   \<and> fst (set_snmp run community host au ap s)
     = (retcode (fst (run (command_line host au ap
                             (''config -g cfgOobSnmp -o cfgOobSnmpAgentCommunity '' @ community)
                             []) (world s))) = 0)
   \<and> fst (set_chassis_name run name host au ap s)
     = (retcode (fst (run (command_line host au ap (''setsysinfo -c chassisname '' @ name) [])
                        (world s))) = 0)"
  by (simp add: server_reboot_def set_snmp_def set_chassis_name_def execute_cmd_eq Let_def)

lemma execute_cmd_on_exit_codes:
  "fst (execute_cmd scripted ''serveraction powercycle'' None None None None (fresh [exits 0]))
   \<and> \<not> fst (server_reboot scripted None None None None (fresh [exits 1]))
   \<and> \<not> fst (set_snmp scripted ''public'' None None None (fresh [exits 2]))
   \<and> \<not> fst (set_chassis_name scripted ''my-chassis'' None None None (fresh [exits (- 1)]))"
  using execute_cmd_true_iff_exit_zero
          [of scripted "''serveraction powercycle''" None None None None "fresh [exits 0]"]
        execute_cmd_true_iff_exit_zero
          [of scripted _ None None None None "fresh [exits 1]"]
        execute_cmd_true_iff_exit_zero
          [of scripted _ None None None _ "fresh [exits 2]" "''public''"]
        execute_cmd_true_iff_exit_zero
          [of scripted _ None None None _ "fresh [exits (- 1)]" _ "''my-chassis''"]
  by (simp add: scripted_def fresh_def exits_def)

text \<open>
  C3. The dispatcher returns False on every nonzero exit code, but not every operation
  built on it hands that on. When the command that enables remote logging exits with 1,
  \<^verbatim>\<open>syslog\<close> goes on to the command that disables remote logging and returns the
  result of that one: True when it exits with 0.
\<close>

theorem syslog_true_after_failed_enable:
  "fst (syslog scripted ''10.0.0.5'' True None None None None (fresh [exits 1, exits 0])) = True
   \<and> issued (snd (syslog scripted ''10.0.0.5'' True None None None None
                     (fresh [exits 1, exits 0])))
     = [''racadm config -g cfgRemoteHosts -o cfgRhostsSyslogEnable 1 '',
        ''racadm config -g cfgRemoteHosts -o cfgRhostsSyslogEnable 0 '']
   \<and> outcomes scripted
         [''racadm config -g cfgRemoteHosts -o cfgRhostsSyslogEnable 1 '',
          ''racadm config -g cfgRemoteHosts -o cfgRhostsSyslogEnable 0 ''] [exits 1, exits 0]
     = [1, 0]"
  by code_simp

lemma syslog_after_failed_enable:
  assumes "retcode (fst (run (command_line host au ap
               ''config -g cfgRemoteHosts -o cfgRhostsSyslogEnable 1'' []) (world s))) \<noteq> 0"
  shows "fst (syslog run srv True host au ap module s)
         = (retcode (fst (run (command_line host au ap
                            ''config -g cfgRemoteHosts -o cfgRhostsSyslogEnable 0''
                            (modswitch_cmd module))
                          (snd (run (command_line host au ap
                                  ''config -g cfgRemoteHosts -o cfgRhostsSyslogEnable 1'' [])
                                  (world s))))) = 0)"
  using assms by (simp add: syslog_def execute_cmd_eq Let_def)

section \<open>Properties of user creation\<close>




section \<open>Properties of the permission mask\<close>

lemma privileges_parse:
  assumes "map_of privileges k = Some h"
  shows "\<exists>v. int16 h = Some v"
proof -
  have "h \<in> snd ` set privileges" using assms by (metis map_of_SomeD image_eqI snd_conv)
  then show ?thesis
    unfolding privileges_def
    by (auto simp: int16_def startswith_def hex_digit_def)
qed

lemma permission_loop_sum:
  "permission_loop fs acc = Inr (acc + sum_list (map flag_value fs))"
proof (induction fs arbitrary: acc)
  case Nil
  show ?case by simp
next
  case (Cons f fs)
  show ?case
  proof (cases "map_of privileges (strip f)")
    case None
    then show ?thesis using Cons by (simp add: flag_value_def)
  next
    case (Some h)
    then obtain v where "int16 h = Some v" using privileges_parse by blast
    then show ?thesis using Some Cons by (simp add: flag_value_def)
  qed
qed

lemma permission_mask_value: "permission_mask permissions = Inr (mask_value permissions)"
  by (simp add: permission_mask_def mask_value_def permission_loop_sum)

lemma permission_mask_reorder:
  assumes "mset (split_on CHR '','' p) = mset (split_on CHR '','' q)"
  shows "permission_mask p = permission_mask q"
proof -
  have "sum_list (map flag_value (split_on CHR '','' p))
        = sum_mset (image_mset flag_value (mset (split_on CHR '','' p)))"
    by (metis mset_map sum_mset_sum_list)
  also have "\<dots> = sum_mset (image_mset flag_value (mset (split_on CHR '','' q)))"
    using assms by simp
  also have "\<dots> = sum_list (map flag_value (split_on CHR '','' q))"
    by (metis mset_map sum_mset_sum_list)
  finally show ?thesis by (simp add: permission_mask_value mask_value_def)
qed

text \<open>
  C1. The mask is the sum of the values of the flags in the order they are written, so it
  does not change when the flags are reordered (\<open>permission_mask_reorder\<close>). A repeated
  flag is added again: \<^verbatim>\<open>login,drac\<close> gives 3, and \<^verbatim>\<open>drac,login,login\<close> gives 4, the
  bit of \<^verbatim>\<open>user_management\<close>, which \<^verbatim>\<open>set_permissions\<close> sends as \<^verbatim>\<open>0x00000004\<close>.
\<close>

theorem set_permissions_adds_repeated_flag:
  "permission_mask ''login,drac'' = Inr 3
   \<and> permission_mask ''drac,login,login'' = Inr 4
   \<and> permission_mask ''user_management'' = Inr 4
   \<and> issued (snd (set_permissions scripted ''diana'' ''drac,login,login'' (Some 4)
                     None None None (fresh [])))
     = [''racadm config -g cfgUserAdmin -o cfgUserAdminPrivilege -i 4 0x00000004 '']"
  by code_simp

section \<open>Properties of the steps of user creation\<close>

lemma set_permissions_uid:
  "set_permissions run username permissions (Some uid) host au ap s =
     (case execute_cmd run
             (''config -g cfgUserAdmin -o cfgUserAdminPrivilege -i '' @ str_int uid
              @ '' 0x'' @ format_08X (mask_value permissions)) host au ap None s of
        (ok, s2) \<Rightarrow> (Inr ok, s2))"
  by (simp add: set_permissions_def permission_mask_value)

lemma change_password_uid:
  "uid \<noteq> 0 \<Longrightarrow>
   change_password run username password (Some uid) host au ap module s =
     (case execute_cmd run
             (''config -g cfgUserAdmin -o cfgUserAdminPassword -i '' @ str_int uid
              @ '' '' @ password) host au ap module s of
        (ok, s2) \<Rightarrow> (Inr ok, s2))"
  by (simp add: change_password_def)

lemma delete_user_uid:
  "uid \<noteq> 0 \<Longrightarrow>
   delete_user run username (Some uid) host au ap s =
     (case execute_cmd run
             (''config -g cfgUserAdmin -o cfgUserAdminUserName -i '' @ str_int uid
              @ '' '' @ [CHR 0x22, CHR 0x22]) host au ap None s of
        (ok, s2) \<Rightarrow> (Inr ok, s2))"
  by (simp add: delete_user_def)

lemma new_uid_range: "new_uid U = Inr u \<Longrightarrow> 2 \<le> u \<and> u \<le> 11 \<and> u \<notin> U"
proof -
  assume a: "new_uid U = Inr u"
  define xs where "xs = sorted_list_of_set ({2..11} - U)"
  have set_xs: "set xs = {2..11} - U" unfolding xs_def by simp
  from a have "xs \<noteq> []" "u = hd xs"
    by (auto simp: new_uid_def pop_def xs_def [symmetric] last_rev split: if_splits)
  then have "u \<in> set xs" by simp
  with set_xs show ?thesis by auto
qed

lemma delete_and_fail_eq:
  "uid \<noteq> 0 \<Longrightarrow>
   fst (delete_and_fail run username uid s) = Inr False
   \<and> issued (snd (delete_and_fail run username uid s))
     = issued s @ [delete_command None None None uid]"
  by (simp add: delete_and_fail_def delete_user_uid execute_cmd_eq delete_command_def Let_def)

lemma create_user_issued:
  assumes users: "(case users of Some us \<Rightarrow> (Inr us, s)
                   | None \<Rightarrow> list_users run None None None None s) = (Inr us, s0)"
    and fresh: "map_of us username = None"
    and uid: "new_uid (uids_of us) = Inr uid"
  shows "let cs = command_line host au ap
                    (''config -g cfgUserAdmin -o cfgUserAdminUserName -i '' @ str_int uid
                     @ '' '' @ username) []
                  # tl (create_user_commands None None None username password permissions uid);
             k = length (takeWhile (\<lambda>rc. rc = 0) (outcomes run cs (world s0)));
             res = create_user run username password permissions users host au ap s
         in (fst res = Inr True \<longleftrightarrow> k = 4)
          \<and> (k = 4 \<longrightarrow> issued (snd res) = issued s0 @ cs)
          \<and> (k < 4 \<longrightarrow> fst res = Inr False
                \<and> issued (snd res)
                  = issued s0 @ take (Suc k) cs @ [delete_command None None None uid])"
proof -
  have nz: "uid \<noteq> 0" using new_uid_range [OF uid] by simp
  show ?thesis
    unfolding create_user_def users
    using fresh uid nz
    by (simp add: create_user_commands_def set_permissions_uid change_password_uid
        delete_and_fail_eq execute_cmd_eq Let_def log_warning_def)
qed





text \<open>
  C7. With a host given, the first step names the user on that host, but the rollback
  calls \<^verbatim>\<open>delete_user(username, uid)\<close> without the host. When the third step fails,
  the result is False and the delete is issued to the local controller; the command that
  deletes the user at the allocated index on the host is not among the commands issued.
\<close>

theorem create_user_rollback_omits_host:
  "fst (create_user scripted ''diana'' ''secret'' ''login,drac''
          (Some [(''root'', \<lparr>index = 2, attrs = []\<rparr>)]) (Some ''10.0.0.1'') (Some ''root'')
          (Some ''calvin'') (fresh [exits 0, exits 0, exits 1])) = Inr False
   \<and> issued (snd (create_user scripted ''diana'' ''secret'' ''login,drac''
          (Some [(''root'', \<lparr>index = 2, attrs = []\<rparr>)]) (Some ''10.0.0.1'') (Some ''root'')
          (Some ''calvin'') (fresh [exits 0, exits 0, exits 1])))
     = [''racadm -r 10.0.0.1 -u root -p calvin config -g cfgUserAdmin -o cfgUserAdminUserName -i 3 diana '',
        ''racadm config -g cfgUserAdmin -o cfgUserAdminPrivilege -i 3 0x00000003 '',
        ''racadm config -g cfgUserAdmin -o cfgUserAdminPassword -i 3 secret '',
        ''racadm config -g cfgUserAdmin -o cfgUserAdminUserName -i 3 '' @ [CHR 0x22, CHR 0x22] @ '' '']
   \<and> delete_command (Some ''10.0.0.1'') (Some ''root'') (Some ''calvin'') 3
     = ''racadm -r 10.0.0.1 -u root -p calvin config -g cfgUserAdmin -o cfgUserAdminUserName -i 3 ''
       @ [CHR 0x22, CHR 0x22] @ '' ''
   \<and> delete_command (Some ''10.0.0.1'') (Some ''root'') (Some ''calvin'') 3
     \<notin> set (issued (snd (create_user scripted ''diana'' ''secret'' ''login,drac''
          (Some [(''root'', \<lparr>index = 2, attrs = []\<rparr>)]) (Some ''10.0.0.1'') (Some ''root'')
          (Some ''calvin'') (fresh [exits 0, exits 0, exits 1]))))"
  by code_simp

text \<open>
  With no host given the rollback is the intended one: the result is True exactly when
  all four steps succeed, and when step \<open>k + 1\<close> is the first to fail, the commands
  issued are the first \<open>k + 1\<close> steps followed by the deletion of the user at the
  allocated index.
\<close>

lemma command_line_local:
  "\<not> truthy host \<Longrightarrow> command_line host au ap c m = command_line None None None c m"
  by (simp add: command_line_def truthy_def)

lemma create_user_rolls_back_locally:
  assumes "\<not> truthy host"
    and "(case users of Some us \<Rightarrow> (Inr us, s)
          | None \<Rightarrow> list_users run None None None None s) = (Inr us, s0)"
    and "map_of us username = None"
    and "new_uid (uids_of us) = Inr uid"
  shows "let cs = create_user_commands host au ap username password permissions uid;
             k = length (takeWhile (\<lambda>rc. rc = 0) (outcomes run cs (world s0)));
             res = create_user run username password permissions users host au ap s
         in (fst res = Inr True \<longleftrightarrow> k = 4)
          \<and> (k = 4 \<longrightarrow> issued (snd res) = issued s0 @ cs)
          \<and> (k < 4 \<longrightarrow> fst res = Inr False
                \<and> issued (snd res) = issued s0 @ take (Suc k) cs @ [delete_command host au ap uid])"
proof -
  have cs: "create_user_commands host au ap username password permissions uid
            = command_line host au ap
                (''config -g cfgUserAdmin -o cfgUserAdminUserName -i '' @ str_int uid
                 @ '' '' @ username) []
              # tl (create_user_commands None None None username password permissions uid)"
    by (simp add: create_user_commands_def command_line_local [OF assms(1)])
  have dc: "delete_command host au ap uid = delete_command None None None uid"
    by (simp add: delete_command_def command_line_local [OF assms(1)])
  show ?thesis
    unfolding cs dc by (rule create_user_issued [OF assms(2,3,4)])
qed

section \<open>Properties of the section parser\<close>

lemma rstrip_empty: "rstrip s = [] \<longleftrightarrow> (\<forall>c \<in> set s. isspace c)"
  by (auto simp: rstrip_def dropWhile_eq_Nil_conv)

lemma lstrip_empty: "lstrip s = [] \<longleftrightarrow> (\<forall>c \<in> set s. isspace c)"
  by (auto simp: lstrip_def dropWhile_eq_Nil_conv)

lemma set_lstrip: "set (lstrip s) \<subseteq> set s"
  by (simp add: lstrip_def set_dropWhileD subsetI)

lemma strip_empty: "strip s = [] \<longleftrightarrow> (\<forall>c \<in> set s. isspace c)"
proof
  assume "strip s = []"
  then have a: "\<forall>c \<in> set (lstrip s). isspace c" by (simp add: strip_def rstrip_empty)
  show "\<forall>c \<in> set s. isspace c"
  proof (cases "lstrip s")
    case Nil
    then show ?thesis by (simp add: lstrip_empty)
  next
    case (Cons c cs)
    then have "\<not> isspace c" unfolding lstrip_def by (metis hd_dropWhile list.sel(1) list.distinct(1))
    with a Cons show ?thesis by simp
  qed
next
  assume "\<forall>c \<in> set s. isspace c"
  then have "lstrip s = []" by (simp add: lstrip_empty)
  then show "strip s = []" by (simp add: strip_def rstrip_def)
qed

lemma eq_not_space: "\<not> isspace CHR ''=''"
  by (simp add: isspace_def)

lemma pair_line_test: "CHR ''='' \<in> set i \<Longrightarrow> rstrip i \<noteq> []"
  using eq_not_space rstrip_empty by auto

lemma blank_no_eq: "blank l \<Longrightarrow> CHR ''='' \<notin> set l"
  using eq_not_space by (auto simp: blank_def strip_empty)

lemma split_on_length: "length (split_on c s) = Suc (count_list s c)"
  by (induction s) (auto split: list.splits)

lemma split_on_single:
  "count_list s c = 1 \<Longrightarrow>
   split_on c s = [takeWhile (\<lambda>x. x \<noteq> c) s, drop 1 (dropWhile (\<lambda>x. x \<noteq> c) s)]"
proof (induction s)
  case Nil
  then show ?case by simp
next
  case (Cons x xs)
  show ?case
  proof (cases "x = c")
    case True
    with Cons.prems have "count_list xs c = 0" by simp
    then have "c \<notin> set xs" by (simp add: count_list_0_iff)
    then have "split_on c xs = [xs]" by (induction xs) (auto split: list.splits)
    with True show ?thesis by simp
  next
    case False
    with Cons show ?thesis by simp
  qed
qed

lemma parse_drac_loop_closing:
  assumes "list_all wf_line ls"
    and "map_of drac [] = None"
    and "case cur of
           None \<Rightarrow> map_of drac sec = None
         | Some n \<Rightarrow> sec = n \<and> map_of drac n \<noteq> None"
  shows "parse_drac_loop ls drac sec = Inr (closing_sections ls cur drac)"
  using assms
proof (induction ls arbitrary: drac sec cur)
  case Nil
  show ?case by simp
next
  case (Cons l ls)
  have wl: "wf_line l" and wls: "list_all wf_line ls"
    using Cons.prems(1) by simp_all
  consider (blank) "blank l"
    | (pair) "CHR ''='' \<in> set l" "count_list l CHR ''='' = 1" "\<not> blank l"
    | (header) "CHR ''='' \<notin> set l" "length (strip l) > 1" "last (strip l) = CHR '':''" "\<not> blank l"
    using wl blank_no_eq unfolding wf_line_def by (auto simp: blank_def)
  then show ?case
  proof cases
    case blank
    then have noeq: "CHR ''='' \<notin> set l" by (rule blank_no_eq)
    have st: "strip l = []" using blank by (simp add: blank_def)
    have "parse_drac_loop (l # ls) drac sec = parse_drac_loop ls drac []"
      using noeq st Cons.prems(2) by simp
    also have "\<dots> = Inr (closing_sections ls None drac)"
      by (rule Cons.IH [OF wls Cons.prems(2)]) (use Cons.prems(2) in simp)
    finally show ?thesis using blank by simp
  next
    case pair
    show ?thesis
    proof (cases cur)
      case None
      then have "map_of drac sec = None" using Cons.prems(3) by simp
      then have "parse_drac_loop (l # ls) drac sec = parse_drac_loop ls drac sec"
        using pair by (simp add: pair_line_test)
      also have "\<dots> = Inr (closing_sections ls cur drac)"
        by (rule Cons.IH [OF wls Cons.prems(2)]) (use None Cons.prems(3) in simp)
      finally show ?thesis using pair None by simp
    next
      case (Some n)
      then have sec: "sec = n" and decl: "map_of drac n \<noteq> None"
        using Cons.prems(3) by auto
      then obtain d where d: "map_of drac sec = Some d" by auto
      let ?k = "strip (takeWhile (\<lambda>c. c \<noteq> CHR ''='') l)"
      let ?v = "strip (drop 1 (dropWhile (\<lambda>c. c \<noteq> CHR ''='') l))"
      let ?drac = "AList.update sec (AList.update ?k ?v d) drac"
      have ne: "sec \<noteq> []" using d Cons.prems(2) by auto
      have "parse_drac_loop (l # ls) drac sec = parse_drac_loop ls ?drac sec"
        using pair d by (simp add: pair_line_test split_on_single)
      also have "\<dots> = Inr (closing_sections ls cur ?drac)"
      proof (rule Cons.IH [OF wls])
        show "map_of ?drac [] = None" using Cons.prems(2) ne by (simp add: update_conv')
        show "case cur of None \<Rightarrow> map_of ?drac sec = None
              | Some n \<Rightarrow> sec = n \<and> map_of ?drac n \<noteq> None"
          using Some sec by (simp add: update_conv')
      qed
      finally show ?thesis using pair Some sec d by (simp add: add_pair_def)
    qed
  next
    case header
    let ?n = "butlast (strip l)"
    have name: "section_name l = ?n" using header by (auto simp: section_name_def Let_def)
    have ne: "?n \<noteq> []" using header(2) by (cases "strip l" rule: rev_cases) auto
    let ?drac = "declare_section ?n drac"
    have "parse_drac_loop (l # ls) drac sec = parse_drac_loop ls ?drac ?n"
      using header ne by (auto simp: Let_def declare_section_def)
    also have "\<dots> = Inr (closing_sections ls (Some ?n) ?drac)"
    proof (rule Cons.IH [OF wls])
      show "map_of ?drac [] = None"
        using Cons.prems(2) ne by (auto simp: declare_section_def update_conv' split: option.splits)
      show "case Some ?n of None \<Rightarrow> map_of ?drac ?n = None
            | Some n \<Rightarrow> ?n = n \<and> map_of ?drac n \<noteq> None"
        by (auto simp: declare_section_def update_conv' split: option.splits)
    qed
    finally show ?thesis using header name by simp
  qed
qed

text \<open>
  C4. On well-formed sectioned input the parser returns the dictionary of the
  line-by-line reconstruction in which a blank line ends the current section: pairs
  trimmed and stored in the current section, sections named by the header without its
  colon, pairs that lie in no section dropped, and a later value for a key put in place
  of the earlier one.
\<close>

theorem parse_drac_blank_line_closes_section:
  "well_formed output
   \<Longrightarrow> parse_drac output = Inr (closing_sections (splitlines output) None [])"
  unfolding well_formed_def parse_drac_def
  by (rule parse_drac_loop_closing) simp_all

theorem parse_drac_blank_line_closes_section_witness:
  "well_formed (''stray=1'' @ [LF] @ ''Chassis Information:'' @ [LF]
     @ ''Chassis Name = MyChassis'' @ [LF] @ ''Chassis Name=Other'' @ [LF] @ [LF]
     @ ''lost = 1'' @ [LF] @ ''RAC Information:'' @ [LF] @ ''Firmware Version = 1.30'')
   \<and> parse_drac (''stray=1'' @ [LF] @ ''Chassis Information:'' @ [LF]
     @ ''Chassis Name = MyChassis'' @ [LF] @ ''Chassis Name=Other'' @ [LF] @ [LF]
     @ ''lost = 1'' @ [LF] @ ''RAC Information:'' @ [LF] @ ''Firmware Version = 1.30'')
     = Inr [(''Chassis Information'', [(''Chassis Name'', ''Other'')]),
            (''RAC Information'', [(''Firmware Version'', ''1.30'')])]"
proof -
  let ?out = "''stray=1'' @ [LF] @ ''Chassis Information:'' @ [LF]
     @ ''Chassis Name = MyChassis'' @ [LF] @ ''Chassis Name=Other'' @ [LF] @ [LF]
     @ ''lost = 1'' @ [LF] @ ''RAC Information:'' @ [LF] @ ''Firmware Version = 1.30''"
  have wf: "well_formed ?out" by code_simp
  have sp: "closing_sections (splitlines ?out) None []
            = [(''Chassis Information'', [(''Chassis Name'', ''Other'')]),
               (''RAC Information'', [(''Firmware Version'', ''1.30'')])]"
    by code_simp
  show ?thesis using parse_drac_blank_line_closes_section [OF wf] wf sp by simp
qed

text \<open>
  The reconstruction that passes over blank lines is not what the parser computes: after
  the header \<^verbatim>\<open>S:\<close> and a blank line the parser drops the pair \<^verbatim>\<open>a=b\<close>, which that
  reconstruction stores in \<^verbatim>\<open>S\<close>.
\<close>

theorem parse_drac_blank_line_counterexample:
  "well_formed (''S:'' @ [LF] @ [LF] @ ''a=b'')
   \<and> parse_drac (''S:'' @ [LF] @ [LF] @ ''a=b'') = Inr [(''S'', [])]
   \<and> spec_sections (splitlines (''S:'' @ [LF] @ [LF] @ ''a=b'')) None []
     = [(''S'', [(''a'', ''b'')])]"
  by code_simp

text \<open>
  Outside well-formed input, a header that does not end in a colon loses its last
  character. Within a section the reconstruction, like the parser, keeps the later value
  of a key.
\<close>

lemma parse_drac_header_without_colon:
  "parse_drac (''Foo'' @ [LF] @ ''a=b'') = Inr [(''Fo'', [(''a'', ''b'')])]"
  by code_simp

lemma add_pair_later_value:
  "\<exists>d. map_of (add_pair name k v m) name = Some d \<and> map_of d k = Some v"
  by (simp add: add_pair_def update_conv')

lemma parse_drac_loop_total:
  assumes "map_of drac [] = None" and "sec \<noteq> [] \<longrightarrow> map_of drac sec \<noteq> None"
  shows "(\<exists>d. parse_drac_loop ls drac sec = Inr d) \<longleftrightarrow> single_pairs sec ls"
  using assms
proof (induction ls arbitrary: drac sec)
  case Nil
  show ?case by simp
next
  case (Cons l ls)
  show ?case
  proof (cases "CHR ''='' \<in> set l")
    case True
    show ?thesis
    proof (cases "map_of drac sec")
      case None
      then have "sec = []" using Cons.prems by auto
      then show ?thesis using True None Cons by (simp add: pair_line_test)
    next
      case (Some d)
      then have ne: "sec \<noteq> []" using Cons.prems by auto
      show ?thesis
      proof (cases "count_list l CHR ''='' = 1")
        case one: True
        let ?k = "strip (takeWhile (\<lambda>c. c \<noteq> CHR ''='') l)"
        let ?v = "strip (drop 1 (dropWhile (\<lambda>c. c \<noteq> CHR ''='') l))"
        let ?drac = "AList.update sec (AList.update ?k ?v d) drac"
        have "parse_drac_loop (l # ls) drac sec = parse_drac_loop ls ?drac sec"
          using True Some one by (simp add: pair_line_test split_on_single)
        moreover have "(\<exists>d. parse_drac_loop ls ?drac sec = Inr d) \<longleftrightarrow> single_pairs sec ls"
          by (rule Cons.IH) (use Cons.prems ne in \<open>simp_all add: update_conv'\<close>)
        ultimately show ?thesis using True one by simp
      next
        case False
        then have "length (map strip (split_on CHR ''='' l)) \<noteq> 2"
          by (simp add: split_on_length)
        then have "parse_drac_loop (l # ls) drac sec = Inl ValueError"
          using True Some by (auto simp: pair_line_test split: list.splits)
        then show ?thesis using True False ne by simp
      qed
    qed
  next
    case False
    let ?n = "butlast (strip l)"
    let ?drac = "if map_of drac ?n = None \<and> ?n \<noteq> [] then AList.update ?n [] drac else drac"
    have "parse_drac_loop (l # ls) drac sec = parse_drac_loop ls ?drac ?n"
      using False by (simp add: Let_def)
    moreover have "(\<exists>d. parse_drac_loop ls ?drac ?n = Inr d) \<longleftrightarrow> single_pairs ?n ls"
      by (rule Cons.IH) (use Cons.prems in \<open>auto simp: update_conv'\<close>)
    ultimately show ?thesis using False by simp
  qed
qed

text \<open>
  C10. The parser is not total. It returns normally exactly on the inputs in which every
  line with \<^verbatim>\<open>=\<close> that lies inside a declared section has exactly one \<^verbatim>\<open>=\<close>; a
  line \<^verbatim>\<open>a=b=c\<close> inside the declared section \<^verbatim>\<open>S\<close> splits into three parts and the
  dictionary construction raises ValueError.
\<close>

theorem parse_drac_total_iff:
  "((\<exists>d. parse_drac output = Inr d) \<longleftrightarrow> single_pairs [] (splitlines output))
   \<and> parse_drac (''S:'' @ [LF] @ ''a=b=c'') = Inl ValueError"
proof
  show "(\<exists>d. parse_drac output = Inr d) \<longleftrightarrow> single_pairs [] (splitlines output)"
    unfolding parse_drac_def by (rule parse_drac_loop_total) simp_all
  show "parse_drac (''S:'' @ [LF] @ ''a=b=c'') = Inl ValueError" by code_simp
qed

theorem parse_drac_total_iff_witness:
  "\<not> single_pairs [] (splitlines (''S:'' @ [LF] @ ''k=v'' @ [LF] @ ''a=b=c''))
   \<and> (\<forall>d. parse_drac (''S:'' @ [LF] @ ''k=v'' @ [LF] @ ''a=b=c'') \<noteq> Inr d)
   \<and> single_pairs [] (splitlines (''a=b=c'' @ [LF] @ ''S:'' @ [LF] @ ''k=v''))
   \<and> (\<exists>d. parse_drac (''a=b=c'' @ [LF] @ ''S:'' @ [LF] @ ''k=v'') = Inr d)"
proof -
  have a: "\<not> single_pairs [] (splitlines (''S:'' @ [LF] @ ''k=v'' @ [LF] @ ''a=b=c''))"
    by code_simp
  have b: "single_pairs [] (splitlines (''a=b=c'' @ [LF] @ ''S:'' @ [LF] @ ''k=v''))"
    by code_simp
  show ?thesis
    using a b parse_drac_total_iff [of "''S:'' @ [LF] @ ''k=v'' @ [LF] @ ''a=b=c''"]
      parse_drac_total_iff [of "''a=b=c'' @ [LF] @ ''S:'' @ [LF] @ ''k=v''"]
    by simp
qed

text \<open>
  A line with two \<^verbatim>\<open>=\<close> that lies in no declared section is dropped before it is
  split, and the parser returns normally: not every line with \<^verbatim>\<open>=\<close> of an input
  the parser accepts has exactly one \<^verbatim>\<open>=\<close>.
\<close>

theorem parse_drac_stray_line_counterexample:
  "parse_drac ''a=b=c'' = Inr []
   \<and> ''a=b=c'' \<in> set (splitlines ''a=b=c'')
   \<and> CHR ''='' \<in> set ''a=b=c''
   \<and> count_list ''a=b=c'' CHR ''='' = 2"
  by code_simp

section \<open>Properties of the slot listing\<close>

lemma split_ws_empty: "split_ws l = [] \<longleftrightarrow> strip l = []"
proof -
  have "split_ws l = [] \<longleftrightarrow> dropWhile isspace l = []"
    by (subst split_ws.simps) (simp del: dropWhile_eq_Nil_conv split: list.splits)
  also have "\<dots> \<longleftrightarrow> (\<forall>c \<in> set l. isspace c)"
    by (rule dropWhile_eq_Nil_conv)
  also have "\<dots> \<longleftrightarrow> strip l = []"
    by (rule strip_empty [symmetric])
  finally show ?thesis .
qed

lemma LF_neq_CR [simp]: "LF \<noteq> CR" "CR \<noteq> LF"
  by (simp_all add: LF_def CR_def)

lemma splitlines_line:
  "LF \<notin> set l \<Longrightarrow> CR \<notin> set l \<Longrightarrow> splitlines (l @ LF # rest) = l # splitlines rest"
proof (induction l)
  case Nil
  show ?case by (cases rest) simp_all
next
  case (Cons x xs)
  obtain d cs where t: "xs @ LF # rest = d # cs" by (cases xs) auto
  have "splitlines ((x # xs) @ LF # rest) = splitlines (x # d # cs)" using t by simp
  also have "\<dots> = (case splitlines (d # cs) of [] \<Rightarrow> [[x]] | l # ls \<Rightarrow> (x # l) # ls)"
    using Cons.prems by auto
  also have "splitlines (d # cs) = xs # splitlines rest"
    using Cons t by simp
  finally show ?case by simp
qed

lemma splitlines_single:
  "LF \<notin> set l \<Longrightarrow> CR \<notin> set l \<Longrightarrow> l \<noteq> [] \<Longrightarrow> splitlines l = [l]"
proof (induction l rule: splitlines.induct)
  case 1
  then show ?case by simp
next
  case (2 c)
  then show ?case by simp
next
  case (3 c d cs)
  then have "c \<noteq> LF" "c \<noteq> CR" "splitlines (d # cs) = [d # cs]" by auto
  then show ?case by simp
qed

lemma splitlines_no_break: "l \<in> set (splitlines s) \<Longrightarrow> LF \<notin> set l \<and> CR \<notin> set l"
proof (induction s arbitrary: l rule: splitlines.induct)
  case 1
  then show ?case by simp
next
  case (2 c)
  then show ?case by (auto split: if_splits)
next
  case (3 c d cs)
  then show ?case by (auto split: if_splits list.splits)
qed

lemma splitlines_join:
  "(\<forall>l \<in> set ls. l \<noteq> [] \<and> LF \<notin> set l \<and> CR \<notin> set l) \<Longrightarrow> splitlines (join [LF] ls) = ls"
proof (induction ls)
  case Nil
  show ?case by simp
next
  case (Cons x xs)
  show ?case
  proof (cases xs)
    case Nil
    then show ?thesis using Cons.prems by (simp add: splitlines_single)
  next
    case (Cons y ys)
    then have "join [LF] (x # xs) = x @ LF # join [LF] xs" by simp
    then show ?thesis using Cons.prems Cons.IH by (simp add: splitlines_line)
  qed
qed

lemma fmtlines_clean:
  "l \<in> set (fmtlines out) \<Longrightarrow> l \<noteq> [] \<and> LF \<notin> set l \<and> CR \<notin> set l \<and> split_ws l \<noteq> []"
  using splitlines_no_break [of l out]
  by (auto simp: fmtlines_def split_ws_empty strip_def rstrip_def lstrip_def)

lemma splitlines_fmtlines: "splitlines (join [LF] (fmtlines out)) = fmtlines out"
  by (rule splitlines_join) (use fmtlines_clean in blast)

lemma slot_lines_body:
  assumes "\<forall>l \<in> set ls. split_ws l \<noteq> []"
  shows "slot_lines ls False slots
         = Inr (foldl (\<lambda>d (k, v). AList.update k v d) slots
                  (map slot_entry (filter (\<lambda>l. \<not> startswith l ''<'') ls)))"
  using assms
proof (induction ls arbitrary: slots)
  case Nil
  show ?case by simp
next
  case (Cons l ls)
  then obtain f0 fs where f: "split_ws l = f0 # fs" by (cases "split_ws l") auto
  have e: "slot_entry l
           = (f0, \<lparr>slot = f0, slotname = (if length (f0 # fs) > 1 then (f0 # fs) ! 1 else []),
                   hostname = (if length (f0 # fs) > 2 then (f0 # fs) ! 2 else [])\<rparr>)"
    by (simp add: slot_entry_def f token_def)
  show ?case using Cons f e by (simp add: Let_def)
qed

lemma slot_lines_header:
  assumes "\<forall>l \<in> set ls. split_ws l \<noteq> []"
  shows "slot_lines ls True slots
         = Inr (foldl (\<lambda>d (k, v). AList.update k v d) slots
                  (map slot_entry (filter (\<lambda>l. \<not> startswith l ''<'') (after_header ls))))"
  using assms
proof (induction ls)
  case Nil
  show ?case by (simp add: after_header_def)
next
  case (Cons l ls)
  show ?case
  proof (cases "startswith l ''<''")
    case True
    then show ?thesis using Cons.prems by (simp add: after_header_def slot_lines_body)
  next
    case False
    then show ?thesis using Cons by (simp add: after_header_def)
  qed
qed

lemma list_slotnames_body:
  assumes "retcode (fst (run (command_line host au ap ''getslotname'' []) (world s))) = 0"
  shows "fst (list_slotnames run host au ap s)
         = Inr (Parsed (body_slots
                 (fmtlines (stdout (fst (run (command_line host au ap ''getslotname'' [])
                                           (world s)))))))"
proof -
  let ?out = "stdout (fst (run (command_line host au ap ''getslotname'' []) (world s)))"
  have "\<forall>l \<in> set (fmtlines ?out). split_ws l \<noteq> []" using fmtlines_clean by blast
  then have "slot_lines (fmtlines ?out) True [] = Inr (body_slots (fmtlines ?out))"
    by (simp add: slot_lines_header body_slots_def dict_of_def)
  then show ?thesis
    using assms
    by (simp add: list_slotnames_def execute_ret_eq Let_def splitlines_fmtlines
        truthy_def modswitch_ret_def)
qed

text \<open>
  C6. When the command exits with zero, \<^verbatim>\<open>list_slotnames\<close> raises nothing and returns
  the dictionary built from the lines after the first line that starts with \<^verbatim>\<open><\<close>,
  leaving out every later line that starts with \<^verbatim>\<open><\<close> as well: each remaining line
  gives a record keyed by its first token, with the second token as slot name and the
  third as host name, the empty string standing for a token that is missing. When no line
  follows the header the result is the empty dictionary.
\<close>

theorem list_slotnames_skips_tag_lines:
  assumes "retcode (fst (run (command_line host au ap ''getslotname'' []) (world s))) = 0"
  shows "let ls = fmtlines (stdout (fst (run (command_line host au ap ''getslotname'' [])
                                          (world s))))
         in fst (list_slotnames run host au ap s) = Inr (Parsed (body_slots ls))
          \<and> (after_header ls = [] \<longrightarrow> fst (list_slotnames run host au ap s) = Inr (Parsed []))"
  using list_slotnames_body [of run host au ap s] assms
  by (simp add: Let_def body_slots_def dict_of_def)

theorem list_slotnames_skips_tag_lines_witness:
  "fst (list_slotnames scripted None None None
          (fresh [prints (''<Slot #>  <Slot Name>  <Host name>'' @ [LF]
                          @ ''1  SLOT-01  host1'' @ [LF] @ ''2  SLOT-02'')]))
     = Inr (Parsed [(''1'', \<lparr>slot = ''1'', slotname = ''SLOT-01'', hostname = ''host1''\<rparr>),
                    (''2'', \<lparr>slot = ''2'', slotname = ''SLOT-02'', hostname = []\<rparr>)])
   \<and> fst (list_slotnames scripted None None None
          (fresh [prints ''<Slot #>  <Slot Name>  <Host name>'']))
     = Inr (Parsed [])"
proof -
  let ?o1 = "''<Slot #>  <Slot Name>  <Host name>'' @ [LF]
             @ ''1  SLOT-01  host1'' @ [LF] @ ''2  SLOT-02''"
  let ?o2 = "''<Slot #>  <Slot Name>  <Host name>''"
  have r1: "retcode (fst (scripted (command_line None None None ''getslotname'' [])
                            (world (fresh [prints ?o1])))) = 0"
    by (simp add: scripted_def fresh_def prints_def)
  have r2: "retcode (fst (scripted (command_line None None None ''getslotname'' [])
                            (world (fresh [prints ?o2])))) = 0"
    by (simp add: scripted_def fresh_def prints_def)
  have o1: "stdout (fst (scripted (command_line None None None ''getslotname'' [])
                           (world (fresh [prints ?o1])))) = ?o1"
    by (simp add: scripted_def fresh_def prints_def)
  have o2: "stdout (fst (scripted (command_line None None None ''getslotname'' [])
                           (world (fresh [prints ?o2])))) = ?o2"
    by (simp add: scripted_def fresh_def prints_def)
  have b1: "body_slots (fmtlines ?o1)
            = [(''1'', \<lparr>slot = ''1'', slotname = ''SLOT-01'', hostname = ''host1''\<rparr>),
               (''2'', \<lparr>slot = ''2'', slotname = ''SLOT-02'', hostname = []\<rparr>)]"
    by code_simp
  have b2: "after_header (fmtlines ?o2) = []"
    by code_simp
  note t1 = list_slotnames_skips_tag_lines
              [of scripted None None None "fresh [prints ?o1]", unfolded Let_def o1 b1]
  note t2 = list_slotnames_skips_tag_lines
              [of scripted None None None "fresh [prints ?o2]", unfolded Let_def o2]
  have A: "fst (list_slotnames scripted None None None (fresh [prints ?o1]))
           = Inr (Parsed [(''1'', \<lparr>slot = ''1'', slotname = ''SLOT-01'', hostname = ''host1''\<rparr>),
                          (''2'', \<lparr>slot = ''2'', slotname = ''SLOT-02'', hostname = []\<rparr>)])"
    using t1 [OF r1] by (rule conjunct1)
  have "after_header (fmtlines ?o2) = []
        \<longrightarrow> fst (list_slotnames scripted None None None (fresh [prints ?o2])) = Inr (Parsed [])"
    using t2 [OF r2] by (rule conjunct2)
  then have B: "fst (list_slotnames scripted None None None (fresh [prints ?o2])) = Inr (Parsed [])"
    using b2 by (rule mp)
  show ?thesis using A B by (rule conjI)
qed

text \<open>
  A line after the header that starts with \<^verbatim>\<open><\<close> gets no record, although it is a
  line after the header with a first token.
\<close>

theorem list_slotnames_tag_line_counterexample:
  "fst (list_slotnames scripted None None None
          (fresh [prints (''<Slot #>  <Slot Name>  <Host name>'' @ [LF]
                          @ ''1  SLOT-01  host1'' @ [LF] @ ''<none>  spare'')]))
     = Inr (Parsed [(''1'', \<lparr>slot = ''1'', slotname = ''SLOT-01'', hostname = ''host1''\<rparr>)])
   \<and> claimed_slots (fmtlines (''<Slot #>  <Slot Name>  <Host name>'' @ [LF]
                          @ ''1  SLOT-01  host1'' @ [LF] @ ''<none>  spare''))
     = [(''1'', \<lparr>slot = ''1'', slotname = ''SLOT-01'', hostname = ''host1''\<rparr>),
        (''<none>'', \<lparr>slot = ''<none>'', slotname = ''spare'', hostname = []\<rparr>)]"
  by code_simp

section \<open>Properties of the inventory\<close>

lemma re_split_spaces_nonempty: "re_split_spaces s \<noteq> []"
  by (cases s) (auto split: list.splits)

lemma update_fresh: "k \<notin> fst ` set al \<Longrightarrow> AList.update k v al = al @ [(k, v)]"
  by (induction al) auto

lemma foldl_update_distinct:
  "distinct (map fst (acc @ ps))
   \<Longrightarrow> foldl (\<lambda>d (k, v). AList.update k v d) acc ps = acc @ ps"
proof (induction ps arbitrary: acc)
  case Nil
  show ?case by simp
next
  case (Cons p ps)
  obtain k v where p: "p = (k, v)" by (cases p)
  have "k \<notin> fst ` set acc" using Cons.prems p by auto
  then have "AList.update k v acc = acc @ [(k, v)]" by (rule update_fresh)
  moreover have "distinct (map fst ((acc @ [(k, v)]) @ ps))" using Cons.prems p by simp
  ultimately show ?case using Cons.IH [of "acc @ [(k, v)]"] p by simp
qed

lemma dict_of_distinct: "distinct (map fst ps) \<Longrightarrow> dict_of ps = ps"
  using foldl_update_distinct [of "[]" ps] by (simp add: dict_of_def)

lemma distinct_fields: "distinct (fields_of b)"
  by (cases b) (simp_all add: fields_server_def fields_switch_def fields_cmc_def fields_chassis_def)

lemma dict_of_zip_fields: "dict_of (zip (fields_of b) line) = zip (fields_of b) line"
  by (rule dict_of_distinct) (simp add: map_fst_zip_take distinct_fields)

lemma store_line_flags_of:
  "records_of b (store_line (flags_of cur) line ret)
   = (if cur = Some b
      then AList.update (hd line) (dict_of (zip (fields_of b) line)) (records_of b ret)
      else records_of b ret)"
proof (cases cur)
  case None
  then show ?thesis by (cases b) (simp_all add: store_line_def)
next
  case (Some c)
  then show ?thesis by (cases b; cases c) (simp_all add: store_line_def)
qed

lemma tag_of_cases:
  "tag_of l = Some Server \<longleftrightarrow> startswith l ''<Server>''"
  "tag_of l = None \<longleftrightarrow> \<not> startswith l ''<Server>'' \<and> \<not> startswith l ''<Switch>''
     \<and> \<not> startswith l ''<CMC>'' \<and> \<not> startswith l ''<Chassis Infrastructure>''"
  by (auto simp: tag_of_def)

lemma inventory_lines_step:
  "inventory_lines (l # ls) (flags_of cur) ret =
     (case tag_of l of
        Some t \<Rightarrow> inventory_lines ls (flags_of (Some t)) ret
      | None \<Rightarrow>
          if l = [] then inventory_lines ls (flags_of cur) ret
          else inventory_lines ls (flags_of cur)
                 (store_line (flags_of cur) (re_split_spaces (strip l)) ret))"
  by (simp add: tag_of_def re_split_spaces_nonempty)

lemma inventory_lines_total: "\<exists>ret'. inventory_lines ls (flags_of cur) ret = Inr ret'"
proof (induction ls arbitrary: cur ret)
  case Nil
  show ?case by simp
next
  case (Cons l ls)
  show ?case
    unfolding inventory_lines_step
    by (auto split: option.splits intro: Cons.IH)
qed

lemma inventory_lines_records:
  assumes "inventory_lines ls (flags_of cur) ret = Inr ret'"
    and "map_of (records_of b ret') key = Some rec"
  shows "map_of (records_of b ret) key = Some rec
         \<or> (\<exists>pre l post fs. ls = pre @ l # post \<and> active cur pre = Some b
               \<and> tag_of l = None \<and> re_split_spaces (strip l) = key # fs
               \<and> rec = zip (fields_of b) (key # fs))"
  using assms
proof (induction ls arbitrary: cur ret)
  case Nil
  then show ?case by simp
next
  case (Cons l ls)
  show ?case
  proof (cases "tag_of l")
    case (Some t)
    then have "inventory_lines ls (flags_of (Some t)) ret = Inr ret'"
      using Cons.prems(1) unfolding inventory_lines_step by simp
    from Cons.IH [OF this Cons.prems(2)]
    show ?thesis
    proof
      assume "map_of (records_of b ret) key = Some rec"
      then show ?thesis by simp
    next
      assume "\<exists>pre m post fs. ls = pre @ m # post \<and> active (Some t) pre = Some b
               \<and> tag_of m = None \<and> re_split_spaces (strip m) = key # fs
               \<and> rec = zip (fields_of b) (key # fs)"
      then obtain pre m post fs where
        "ls = pre @ m # post" "active (Some t) pre = Some b" "tag_of m = None"
        "re_split_spaces (strip m) = key # fs" "rec = zip (fields_of b) (key # fs)"
        by blast
      then have "l # ls = (l # pre) @ m # post \<and> active cur (l # pre) = Some b
               \<and> tag_of m = None \<and> re_split_spaces (strip m) = key # fs
               \<and> rec = zip (fields_of b) (key # fs)"
        using Some by simp
      then show ?thesis by blast
    qed
  next
    case None
    let ?line = "re_split_spaces (strip l)"
    let ?ret = "if l = [] then ret else store_line (flags_of cur) ?line ret"
    have run: "inventory_lines ls (flags_of cur) ?ret = Inr ret'"
      using Cons.prems(1) None unfolding inventory_lines_step by (simp split: if_splits)
    from Cons.IH [OF this Cons.prems(2)]
    show ?thesis
    proof
      assume m: "map_of (records_of b ?ret) key = Some rec"
      show ?thesis
      proof (cases "l \<noteq> [] \<and> cur = Some b \<and> hd ?line = key")
        case True
        then obtain fs where fs: "?line = key # fs"
          using re_split_spaces_nonempty [of "strip l"] by (cases ?line) auto
        have "rec = zip (fields_of b) (key # fs)"
          using m True fs by (simp add: store_line_flags_of update_conv' dict_of_zip_fields)
        then have "l # ls = [] @ l # ls \<and> active cur [] = Some b \<and> tag_of l = None
                   \<and> re_split_spaces (strip l) = key # fs \<and> rec = zip (fields_of b) (key # fs)"
          using True None fs by simp
        then show ?thesis by blast
      next
        case False
        then have "map_of (records_of b ret) key = Some rec"
          using m by (auto simp: store_line_flags_of update_conv' split: if_splits)
        then show ?thesis by simp
      qed
    next
      assume "\<exists>pre m post fs. ls = pre @ m # post \<and> active cur pre = Some b
               \<and> tag_of m = None \<and> re_split_spaces (strip m) = key # fs
               \<and> rec = zip (fields_of b) (key # fs)"
      then obtain pre m post fs where
        "ls = pre @ m # post" "active cur pre = Some b" "tag_of m = None"
        "re_split_spaces (strip m) = key # fs" "rec = zip (fields_of b) (key # fs)"
        by blast
      then have "l # ls = (l # pre) @ m # post \<and> active cur (l # pre) = Some b
               \<and> tag_of m = None \<and> re_split_spaces (strip m) = key # fs
               \<and> rec = zip (fields_of b) (key # fs)"
        using None by simp
      then show ?thesis by blast
    qed
  qed
qed

text \<open>
  C5. Every record of the inventory comes from a line of the listing that lies in the
  block of its tag: the tag of block \<open>b\<close> is the last tag before the line, the key of the
  record is the first field of the line split at runs of two or more spaces, and the
  record is the zip of the field names declared for \<open>b\<close> with the fields of the line. So
  a record has at most as many attributes as names are declared, and fields beyond the
  names, or names beyond the fields, are left out.
\<close>

theorem inventory_records_keyed_by_first_field:
  assumes "fst (inventory run host au ap s) = Inr (Parsed ret)"
    and "map_of (records_of b ret) key = Some rec"
  shows "\<exists>pre l post fs.
           fmtlines (stdout (fst (run (command_line host au ap ''getversion'' []) (world s))))
             = pre @ l # post
           \<and> active None pre = Some b
           \<and> re_split_spaces (strip l) = key # fs
           \<and> rec = zip (fields_of b) (key # fs)
           \<and> length rec \<le> length (fields_of b)"
proof -
  let ?raw = "fst (run (command_line host au ap ''getversion'' []) (world s))"
  let ?empty = "\<lparr>server = [], switch = [], cmc = [], chassis = []\<rparr>"
  have zero: "retcode ?raw = 0"
    using assms(1) by (auto simp: inventory_def execute_ret_eq Let_def split: if_splits)
  then have "inventory_lines (fmtlines (stdout ?raw)) (flags_of None) ?empty = Inr ret"
    using assms(1)
    by (auto simp: inventory_def execute_ret_eq Let_def splitlines_fmtlines split: sum.splits)
  from inventory_lines_records [OF this assms(2)]
  have "\<exists>pre l post fs. fmtlines (stdout ?raw) = pre @ l # post \<and> active None pre = Some b
          \<and> tag_of l = None \<and> re_split_spaces (strip l) = key # fs
          \<and> rec = zip (fields_of b) (key # fs)"
    by (cases b) simp_all
  then obtain pre l post fs where
    *: "fmtlines (stdout ?raw) = pre @ l # post" "active None pre = Some b"
       "re_split_spaces (strip l) = key # fs" "rec = zip (fields_of b) (key # fs)"
    by blast
  have "length rec \<le> length (fields_of b)" using *(4) by simp
  with * show ?thesis by blast
qed

theorem inventory_records_keyed_by_first_field_witness:
  "fst (inventory scripted None None None
          (fresh [prints (''<Server>'' @ [LF]
                          @ ''server-1  1.30  PowerEdge M610  2  Y  spare'' @ [LF]
                          @ ''<Switch>'' @ [LF] @ ''switch-1  MXL 10/40GbE'')]))
     = Inr (Parsed
         \<lparr>server = [(''server-1'',
                      [(''name'', ''server-1''), (''idrac_version'', ''1.30''),
                       (''blade_type'', ''PowerEdge M610''), (''gen'', ''2''),
                       (''updateable'', ''Y'')])],
          switch = [(''switch-1'', [(''name'', ''switch-1''), (''model_name'', ''MXL 10/40GbE'')])],
          cmc = [], chassis = []\<rparr>)
   \<and> (\<exists>pre l post fs.
         fmtlines (''<Server>'' @ [LF]
                   @ ''server-1  1.30  PowerEdge M610  2  Y  spare'' @ [LF]
                   @ ''<Switch>'' @ [LF] @ ''switch-1  MXL 10/40GbE'') = pre @ l # post
         \<and> active None pre = Some Switch
         \<and> re_split_spaces (strip l) = ''switch-1'' # fs
         \<and> [(''name'', ''switch-1''), (''model_name'', ''MXL 10/40GbE'')]
           = zip (fields_of Switch) (''switch-1'' # fs)
         \<and> length [(''name'', ''switch-1''), (''model_name'', ''MXL 10/40GbE'')]
           \<le> length (fields_of Switch))"
proof -
  let ?out = "''<Server>'' @ [LF]
              @ ''server-1  1.30  PowerEdge M610  2  Y  spare'' @ [LF]
              @ ''<Switch>'' @ [LF] @ ''switch-1  MXL 10/40GbE''"
  let ?ret = "\<lparr>server = [(''server-1'',
                      [(''name'', ''server-1''), (''idrac_version'', ''1.30''),
                       (''blade_type'', ''PowerEdge M610''), (''gen'', ''2''),
                       (''updateable'', ''Y'')])],
          switch = [(''switch-1'', [(''name'', ''switch-1''), (''model_name'', ''MXL 10/40GbE'')])],
          cmc = [], chassis = []\<rparr>"
  have h1: "fst (inventory scripted None None None (fresh [prints ?out])) = Inr (Parsed ?ret)"
    by code_simp
  have h2: "map_of (records_of Switch ?ret) ''switch-1''
            = Some [(''name'', ''switch-1''), (''model_name'', ''MXL 10/40GbE'')]"
    by simp
  have o: "stdout (fst (scripted (command_line None None None ''getversion'' [])
                          (world (fresh [prints ?out])))) = ?out"
    by (simp add: scripted_def fresh_def prints_def)
  note t = inventory_records_keyed_by_first_field
             [of scripted None None None "fresh [prints ?out]" ?ret Switch "''switch-1''"
                 "[(''name'', ''switch-1''), (''model_name'', ''MXL 10/40GbE'')]",
              unfolded o]
  show ?thesis using h1 t [OF h1 h2] by (rule conjI)
qed

section \<open>Properties of the user lookup\<close>

lemma user_index_miss: "map_of users username = None \<Longrightarrow> user_index users username = Inl KeyError"
  by (simp add: user_index_def)

text \<open>
  C8. With \<^verbatim>\<open>uid\<close> left out, \<^verbatim>\<open>delete_user\<close> and \<^verbatim>\<open>change_password\<close> list the users
  and read \<^verbatim>\<open>user[username]['index']\<close> with no check: when the listing succeeds and
  has no entry for the name, the call raises KeyError; no not-found result is returned.
\<close>

theorem lookup_miss_raises_KeyError:
  "(fst (list_users run None None None None s) = Inr users \<and> map_of users username = None
      \<longrightarrow> fst (delete_user run username None host au ap s) = Inl KeyError)
   \<and> (fst (list_users run host au ap module s) = Inr users' \<and> map_of users' username = None
      \<longrightarrow> fst (change_password run username password None host au ap module s) = Inl KeyError)"
proof (intro conjI impI)
  assume a: "fst (list_users run None None None None s) = Inr users \<and> map_of users username = None"
  obtain s1 where "list_users run None None None None s = (Inr users, s1)"
    using a by (cases "list_users run None None None None s") auto
  then show "fst (delete_user run username None host au ap s) = Inl KeyError"
    using a by (simp add: delete_user_def user_index_miss)
next
  assume a: "fst (list_users run host au ap module s) = Inr users' \<and> map_of users' username = None"
  obtain s1 where "list_users run host au ap module s = (Inr users', s1)"
    using a by (cases "list_users run host au ap module s") auto
  then show "fst (change_password run username password None host au ap module s) = Inl KeyError"
    using a by (simp add: change_password_def user_index_miss)
qed

theorem lookup_miss_raises_KeyError_witness:
  "fst (delete_user scripted ''diana'' None None None None
          (fresh [prints (''cfgUserAdminIndex=1'' @ [LF] @ ''cfgUserAdminUserName=root'' @ [LF]
                          @ ''cfgUserAdminEnable=1'')])) = Inl KeyError
   \<and> fst (change_password scripted ''diana'' ''secret'' None None None None None
          (fresh [prints (''cfgUserAdminIndex=1'' @ [LF] @ ''cfgUserAdminUserName=root'' @ [LF]
                          @ ''cfgUserAdminEnable=1'')])) = Inl KeyError"
proof -
  let ?s = "fresh [prints (''cfgUserAdminIndex=1'' @ [LF] @ ''cfgUserAdminUserName=root'' @ [LF]
                          @ ''cfgUserAdminEnable=1'')]"
  let ?us = "[(''root'', \<lparr>index = 1, attrs = [(''cfgUserAdminEnable'', ''1'')]\<rparr>)]"
  have l: "fst (list_users scripted None None None None ?s) = Inr ?us"
    by code_simp
  have m: "map_of ?us ''diana'' = None" by simp
  show ?thesis
    using lookup_miss_raises_KeyError [of scripted ?s ?us "''diana''" None None None None ?us "''secret''"]
      l m by simp
qed

section \<open>Properties of the PXE boot\<close>

text \<open>
  C9. When both configuration commands exit with zero, \<^verbatim>\<open>server_pxe\<close> returns the
  function \<^verbatim>\<open>server_reboot\<close> itself: the two configuration commands are the only
  commands run, so no reboot is issued, and nothing is logged. When the first command
  fails, or the first succeeds and the second fails, it logs its warning and returns
  False.
\<close>

theorem server_pxe_returns_function:
  "let c1 = command_line host au ap ''config -g cfgServerInfo -o cfgServerFirstBootDevice PXE'' [];
       c2 = command_line host au ap ''config -g cfgServerInfo -o cfgServerBootOnce 1'' [];
       rc1 = retcode (fst (run c1 (world s)));
       rc2 = retcode (fst (run c2 (snd (run c1 (world s)))));
       res = server_pxe run host au ap s
   in (rc1 = 0 \<and> rc2 = 0 \<longrightarrow>
         fst res = Returned_function (server_reboot run)
         \<and> issued (snd res) = issued s @ [c1, c2] \<and> warnings (snd res) = warnings s)
    \<and> (rc1 = 0 \<and> rc2 \<noteq> 0 \<longrightarrow>
         fst res = Returned_bool False \<and> issued (snd res) = issued s @ [c1, c2]
         \<and> warnings (snd res)
           = warnings s @ [exit_code_warning rc2, ''failed to set boot order''])
    \<and> (rc1 \<noteq> 0 \<longrightarrow>
         fst res = Returned_bool False \<and> issued (snd res) = issued s @ [c1]
         \<and> warnings (snd res)
           = warnings s @ [exit_code_warning rc1, ''failed to to configure PXE boot''])"
  by (simp add: server_pxe_def execute_cmd_eq Let_def log_warning_def)

theorem server_pxe_returns_function_witness:
  "fst (server_pxe scripted None None None (fresh [exits 0, exits 0]))
     = Returned_function (server_reboot scripted)
   \<and> issued (snd (server_pxe scripted None None None (fresh [exits 0, exits 0])))
     = [''racadm config -g cfgServerInfo -o cfgServerFirstBootDevice PXE '',
        ''racadm config -g cfgServerInfo -o cfgServerBootOnce 1 '']
   \<and> fst (server_pxe scripted None None None (fresh [exits 0, exits 1])) = Returned_bool False
   \<and> fst (server_pxe scripted None None None (fresh [exits 1])) = Returned_bool False"
  using server_pxe_returns_function [of None None None scripted "fresh [exits 0, exits 0]"]
        server_pxe_returns_function [of None None None scripted "fresh [exits 0, exits 1]"]
        server_pxe_returns_function [of None None None scripted "fresh [exits 1]"]
  by (simp add: Let_def scripted_def fresh_def exits_def command_line_def truthy_def)

end
